theory Spec2Isabelle
  imports Complex_Main "HOL-Library.Word"
begin

unbundle bit_operations_syntax

section \<open>Decoded JSON documents\<close>

text \<open>
  Both metadata documents are what \<^verbatim>\<open>encoding/json\<close> decodes into an
  \<^verbatim>\<open>interface{}\<close>: \<^verbatim>\<open>nil\<close>, \<^verbatim>\<open>bool\<close>, \<^verbatim>\<open>float64\<close>,
  \<^verbatim>\<open>string\<close>, \<^verbatim>\<open>[]interface{}\<close> or \<^verbatim>\<open>map[string]interface{}\<close>.
  A decoded number is a finite \<^verbatim>\<open>float64\<close> (the decoder rejects what overflows),
  so it is a real number here, and the only operations the program applies to it,
  the comparisons \<^verbatim>\<open>count > 1\<close> and \<^verbatim>\<open>d > 0\<close>, are exact.
  A Go map is a partial function from keys to values.
\<close>

datatype json =
    JNull
  | JBool bool
  | JNum real
  | JStr string
  | JArr "json list"
  | JObj "string \<Rightarrow> json option"

type_synonym doc = "string \<Rightarrow> json option"

text \<open>\<^verbatim>\<open>m[k]\<close> in its one-value form: the zero value \<^verbatim>\<open>nil\<close> when the key is absent.\<close>

definition index :: "doc \<Rightarrow> string \<Rightarrow> json" where
  "index m k = (case m k of None \<Rightarrow> JNull | Some v \<Rightarrow> v)"

text \<open>The comma-ok type assertions \<^verbatim>\<open>v.(T)\<close>; \<open>None\<close> is \<^verbatim>\<open>ok == false\<close>.\<close>

fun assert_float64 :: "json \<Rightarrow> real option" where
  "assert_float64 (JNum x) = Some x"
| "assert_float64 _ = None"

fun assert_string :: "json \<Rightarrow> string option" where
  "assert_string (JStr s) = Some s"
| "assert_string _ = None"

fun assert_slice :: "json \<Rightarrow> json list option" where
  "assert_slice (JArr xs) = Some xs"
| "assert_slice _ = None"

fun assert_map :: "json \<Rightarrow> doc option" where
  "assert_map (JObj m) = Some m"
| "assert_map _ = None"

section \<open>Library functions the program calls\<close>

text \<open>\<^verbatim>\<open>strings.HasPrefix\<close> and \<^verbatim>\<open>strings.Contains\<close> on byte strings.\<close>

definition HasPrefix :: "string \<Rightarrow> string \<Rightarrow> bool" where
  "HasPrefix s p = (take (length p) s = p)"

fun Contains :: "string \<Rightarrow> string \<Rightarrow> bool" where
  "Contains [] sub = (sub = [])"
| "Contains (c # s) sub = (HasPrefix (c # s) sub \<or> Contains s sub)"

text \<open>
  \<^verbatim>\<open>strings.EqualFold\<close> compares under Unicode simple case folding. The program
  calls it with the constant \<^verbatim>\<open>"Encrypted"\<close> only, whose letters have no fold
  partner outside ASCII (the letters that do are k, s and the a-ring), so on that call
  folding is the comparison of the two byte strings with the ASCII capitals lowered.
\<close>

definition to_lower_ascii :: "char \<Rightarrow> char" where
  "to_lower_ascii c =
     (case map_of (zip ''ABCDEFGHIJKLMNOPQRSTUVWXYZ'' ''abcdefghijklmnopqrstuvwxyz'') c of
        Some l \<Rightarrow> l
      | None \<Rightarrow> c)"

definition EqualFold :: "string \<Rightarrow> string \<Rightarrow> bool" where
  "EqualFold s t = (map to_lower_ascii s = map to_lower_ascii t)"

text \<open>
  \<^verbatim>\<open>strconv.Atoi\<close> with a 64-bit \<^verbatim>\<open>int\<close>: an optional sign, then one or more
  decimal digits and nothing else; a value outside the \<^verbatim>\<open>int\<close> range is an error.
  \<open>None\<close> is a non-nil \<^verbatim>\<open>err\<close>.
\<close>

fun parse_digits :: "string \<Rightarrow> nat \<Rightarrow> nat option" where
  "parse_digits [] acc = Some acc"
| "parse_digits (c # cs) acc =
     (if 48 \<le> (of_char c :: nat) \<and> (of_char c :: nat) \<le> 57
      then parse_digits cs (acc * 10 + (of_char c - 48))
      else None)"

definition Atoi :: "string \<Rightarrow> int option" where
  "Atoi s =
     (case s of
        [] \<Rightarrow> None
      | c # r \<Rightarrow>
          (let neg = (c = CHR ''-'');
               ds = (if c = CHR ''-'' \<or> c = CHR ''+'' then r else s)
           in if ds = [] then None
              else (case parse_digits ds 0 of
                      None \<Rightarrow> None
                    | Some u \<Rightarrow>
                        (let n = (if neg then - int u else int u)
                         in if - (2 ^ 63) \<le> n \<and> n < 2 ^ 63 then Some n else None))))"

section \<open>Duration resolution\<close>

text \<open>
  The loop of \<^verbatim>\<open>extractDuration\<close> over the tracks. \<open>Some s\<close> is the \<^verbatim>\<open>return\<close>
  inside the loop, \<open>None\<close> is the loop running to its end. The parameter
  \<open>sprintf_v\<close> is \<^verbatim>\<open>fmt.Sprintf("%v", _)\<close>.
\<close>

fun duration_tracks :: "(json \<Rightarrow> string) \<Rightarrow> json list \<Rightarrow> string option" where
  "duration_tracks sprintf_v [] = None"
| "duration_tracks sprintf_v (track # tracks) =
     (case assert_map track of
        Some trackMap \<Rightarrow>
          if index trackMap ''@type'' = JStr ''Video'' then
            (case trackMap ''Duration'' of
               Some duration \<Rightarrow> Some (sprintf_v duration)
             | None \<Rightarrow> duration_tracks sprintf_v tracks)
          else duration_tracks sprintf_v tracks
      | None \<Rightarrow> duration_tracks sprintf_v tracks)"

definition extractDuration :: "(json \<Rightarrow> string) \<Rightarrow> doc \<Rightarrow> doc \<Rightarrow> string" where
  "extractDuration sprintf_v exif media =
     (case exif ''Duration'' of
        Some val \<Rightarrow> sprintf_v val
      | None \<Rightarrow>
          if index media ''media'' \<noteq> JNull then
            (case assert_map (index media ''media'') of
               Some mediaMap \<Rightarrow>
                 (case assert_slice (index mediaMap ''track'') of
                    Some tracks \<Rightarrow>
                      (case duration_tracks sprintf_v tracks of
                         Some s \<Rightarrow> s
                       | None \<Rightarrow> ''Unknown'')
                  | None \<Rightarrow> ''Unknown'')
             | None \<Rightarrow> ''Unknown'')
          else ''Unknown'')"

section \<open>Animation detection\<close>

fun animation_tracks :: "bool \<Rightarrow> bool \<Rightarrow> json list \<Rightarrow> bool" where
  "animation_tracks isGIF isWebP [] = False"
| "animation_tracks isGIF isWebP (t # ts) =
     (case assert_map t of
        Some track \<Rightarrow>
          (let format = (case assert_string (index track ''Format'') of
                           Some s \<Rightarrow> s | None \<Rightarrow> '''')
           in if (isGIF \<and> Contains format ''GIF'') \<or> (isWebP \<and> Contains format ''WebP'') then
                if (case assert_string (index track ''FrameCount'') of
                      Some fc \<Rightarrow> fc \<noteq> ''1'' | None \<Rightarrow> False) then True
                else if (case assert_string (index track ''Duration'') of
                           Some dur \<Rightarrow> dur \<noteq> ''0'' | None \<Rightarrow> False) then True
                else animation_tracks isGIF isWebP ts
              else animation_tracks isGIF isWebP ts)
      | None \<Rightarrow> animation_tracks isGIF isWebP ts)"

definition exif_frame_count :: "doc \<Rightarrow> bool" where
  "exif_frame_count exif =
     (case exif ''FrameCount'' of
        Some fc \<Rightarrow> (case assert_float64 fc of Some count \<Rightarrow> count > 1 | None \<Rightarrow> False)
      | None \<Rightarrow> False)"

definition exif_animation_flag :: "doc \<Rightarrow> bool" where
  "exif_animation_flag exif =
     (case exif ''Animation'' of
        Some anim \<Rightarrow>
          (case assert_string anim of
             Some val \<Rightarrow> val = ''Yes'' \<or> val = ''True''
           | None \<Rightarrow> False)
      | None \<Rightarrow> False)"

definition exif_duration_positive :: "doc \<Rightarrow> bool" where
  "exif_duration_positive exif =
     (case exif ''Duration'' of
        Some dur \<Rightarrow> (case assert_float64 dur of Some d \<Rightarrow> d > 0 | None \<Rightarrow> False)
      | None \<Rightarrow> False)"

definition isAnimation :: "string \<Rightarrow> doc \<Rightarrow> doc \<Rightarrow> bool" where
  "isAnimation mimeType exif media =
     (let isGIF = (mimeType = ''image/gif'');
          isWebP = (mimeType = ''image/webp'')
      in if exif_frame_count exif then True
         else if exif_animation_flag exif then True
         else if exif_duration_positive exif then True
         else (case assert_map (index media ''media'') of
                 None \<Rightarrow> False
               | Some mediaRoot \<Rightarrow>
                   (case assert_slice (index mediaRoot ''track'') of
                      None \<Rightarrow> False
                    | Some tracks \<Rightarrow> animation_tracks isGIF isWebP tracks)))"

section \<open>Encryption detection\<close>

fun encrypted_tracks :: "json list \<Rightarrow> bool" where
  "encrypted_tracks [] = False"
| "encrypted_tracks (t # ts) =
     (case assert_map t of
        Some trackMap \<Rightarrow>
          (case trackMap ''Encryption'' of
             Some encVal \<Rightarrow>
               (case assert_string encVal of
                  Some encStr \<Rightarrow>
                    if EqualFold encStr ''Encrypted'' then True else encrypted_tracks ts
                | None \<Rightarrow> encrypted_tracks ts)
           | None \<Rightarrow> encrypted_tracks ts)
      | None \<Rightarrow> encrypted_tracks ts)"

definition isEncrypted :: "doc \<Rightarrow> bool" where
  "isEncrypted media =
     (case assert_map (index media ''media'') of
        None \<Rightarrow> False
      | Some mediaRoot \<Rightarrow>
          (case assert_slice (index mediaRoot ''track'') of
             None \<Rightarrow> False
           | Some tracks \<Rightarrow> encrypted_tracks tracks))"

section \<open>Audio-only video detection\<close>

text \<open>
  The loop of \<^verbatim>\<open>isVideoWithAudioOnly\<close> updates the two flags
  \<^verbatim>\<open>hasVideoTrack\<close> and \<^verbatim>\<open>hasGeneralVideoCount\<close>; the state is the pair of them.
\<close>

definition video_track_step :: "doc \<Rightarrow> bool \<times> bool \<Rightarrow> bool \<times> bool" where
  "video_track_step trackMap flags =
     (let hasVideoTrack =
            (case assert_string (index trackMap ''@type'') of
               Some tType \<Rightarrow> if tType = ''Video'' then True else fst flags
             | None \<Rightarrow> fst flags);
          hasGeneralVideoCount =
            (case assert_string (index trackMap ''@type'') of
               Some tType \<Rightarrow>
                 if tType = ''General'' then
                   (case assert_string (index trackMap ''VideoCount'') of
                      Some vc \<Rightarrow>
                        (case Atoi vc of
                           Some vCount \<Rightarrow> if vCount > 0 then True else snd flags
                         | None \<Rightarrow> snd flags)
                    | None \<Rightarrow> snd flags)
                 else snd flags
             | None \<Rightarrow> snd flags)
      in (hasVideoTrack, hasGeneralVideoCount))"

fun video_tracks :: "json list \<Rightarrow> bool \<times> bool \<Rightarrow> bool \<times> bool" where
  "video_tracks [] flags = flags"
| "video_tracks (t # ts) flags =
     (case assert_map t of
        Some trackMap \<Rightarrow> video_tracks ts (video_track_step trackMap flags)
      | None \<Rightarrow> video_tracks ts flags)"

fun exif_has_key :: "doc \<Rightarrow> string list \<Rightarrow> bool" where
  "exif_has_key exif [] = False"
| "exif_has_key exif (key # keys) =
     (case exif key of Some _ \<Rightarrow> True | None \<Rightarrow> exif_has_key exif keys)"

definition isVideoWithAudioOnly :: "string \<Rightarrow> doc \<Rightarrow> doc \<Rightarrow> bool" where
  "isVideoWithAudioOnly mimeType exif media =
     (if \<not> HasPrefix mimeType ''video/'' then False
      else
        (let flags =
               (case assert_map (index media ''media'') of
                  Some mediaRoot \<Rightarrow>
                    (case assert_slice (index mediaRoot ''track'') of
                       Some tracks \<Rightarrow> video_tracks tracks (False, False)
                     | None \<Rightarrow> (False, False))
                | None \<Rightarrow> (False, False));
             hasVideoExifKey = exif_has_key exif [''VideoFrameRate'', ''FrameRate'']
         in \<not> fst flags \<and> \<not> snd flags \<and> \<not> hasVideoExifKey))"

section \<open>MIME resolution\<close>

text \<open>
  \<open>TypeByFile\<close> is the sniffer \<^verbatim>\<open>magicmime.TypeByFile\<close>: \<open>Inl\<close> is a non-nil
  \<^verbatim>\<open>err\<close>, \<open>Inr\<close> the MIME type it found. The program calls it only when the
  tag document does not decide; its answer is named first here, which changes nothing
  in the result.
\<close>

type_synonym error = string

definition getMimeType :: "(string \<Rightarrow> error + string) \<Rightarrow> string \<Rightarrow> doc \<Rightarrow> string" where
  "getMimeType TypeByFile filePath exif =
     (let sniffed =
            (case TypeByFile filePath of
               Inl err \<Rightarrow> ''unknown''
             | Inr mimeType \<Rightarrow> if mimeType = '''' then ''unknown'' else mimeType)
      in case exif ''MIMEType'' of
           Some mime \<Rightarrow>
             (case assert_string mime of
                Some s \<Rightarrow> if s \<noteq> '''' \<and> s \<noteq> ''application/unknown'' then s else sniffed
              | None \<Rightarrow> sniffed)
         | None \<Rightarrow> sniffed)"

section \<open>Human-readable size\<close>

text \<open>
  \<^verbatim>\<open>div\<close> is an \<^verbatim>\<open>int64\<close>: its multiplication wraps around. The loop divides
  only values that are at least 1000, where Go's truncating division and \<open>div\<close> agree.
\<close>

definition wrap64 :: "int \<Rightarrow> int" where
  "wrap64 x = (x + 2 ^ 63) mod 2 ^ 64 - 2 ^ 63"

function size_loop :: "int \<Rightarrow> int \<Rightarrow> nat \<Rightarrow> int \<times> nat" where
  "size_loop n dv ex =
     (if n \<ge> 1000 then size_loop (n div 1000) (wrap64 (dv * 1000)) (ex + 1)
      else (dv, ex))"
  by pat_completeness auto
termination
  by (relation "measure (\<lambda>(n, dv, ex). nat n)") auto

text \<open>\<^verbatim>\<open>fmt.Sprintf("%d", _)\<close> of an integer: its decimal digits after the sign.\<close>

fun show_nat :: "nat \<Rightarrow> string" where
  "show_nat n =
     (if n < 10 then [''0123456789'' ! n]
      else show_nat (n div 10) @ [''0123456789'' ! (n mod 10)])"

definition sprintf_d :: "int \<Rightarrow> string" where
  "sprintf_d i = (if i < 0 then CHR ''-'' # show_nat (nat (- i)) else show_nat (nat i))"

definition units :: "string list" where
  "units = [''KB'', ''MB'', ''GB'', ''TB'']"

text \<open>The run-time panic of an index expression: the index and the length.\<close>

datatype panic = IndexOutOfRange nat nat

text \<open>
  The parameter \<open>sprintf_f1 bytes dv\<close> is
  \<^verbatim>\<open>fmt.Sprintf("%.1f", float64(bytes)/float64(div))\<close>.
\<close>

definition humanReadableSize :: "(int \<Rightarrow> int \<Rightarrow> string) \<Rightarrow> int \<Rightarrow> panic + string" where
  "humanReadableSize sprintf_f1 bytes =
     (if bytes < 1000 then Inr (sprintf_d bytes @ '' B'')
      else
        (case size_loop (bytes div 1000) 1000 0 of
           (dv, ex) \<Rightarrow>
             if ex < length units then Inr (sprintf_f1 bytes dv @ '' '' @ units ! ex)
             else Inl (IndexOutOfRange ex (length units))))"

section \<open>Digest engine\<close>

type_synonym bytes = "8 word list"

text \<open>
  A \<^verbatim>\<open>hash.Hash\<close> accumulator: the algorithm's digest function and the bytes
  written so far. \<^verbatim>\<open>Write\<close> never fails; \<^verbatim>\<open>Sum(nil)\<close> is the digest of what
  was written.
\<close>

record hash =
  algorithm :: "bytes \<Rightarrow> bytes"
  written :: bytes

definition New :: "(bytes \<Rightarrow> bytes) \<Rightarrow> hash" where
  "New f = \<lparr>algorithm = f, written = []\<rparr>"

definition Write :: "hash \<Rightarrow> bytes \<Rightarrow> hash" where
  "Write h p = h\<lparr>written := written h @ p\<rparr>"

definition Sum :: "hash \<Rightarrow> bytes" where
  "Sum h = algorithm h (written h)"

text \<open>
  The digest functions of the crypto packages, and what the two BLAKE2b constructors
  return for a \<^verbatim>\<open>nil\<close> key (\<open>Inl\<close> is a non-nil \<^verbatim>\<open>err\<close>).
\<close>

record crypto =
  md5_New :: "bytes \<Rightarrow> bytes"
  sha1_New :: "bytes \<Rightarrow> bytes"
  sha256_New :: "bytes \<Rightarrow> bytes"
  sha512_New :: "bytes \<Rightarrow> bytes"
  sha3_New256 :: "bytes \<Rightarrow> bytes"
  sha3_New512 :: "bytes \<Rightarrow> bytes"
  blake2b_New256 :: "error + (bytes \<Rightarrow> bytes)"
  blake2b_New512 :: "error + (bytes \<Rightarrow> bytes)"

text \<open>
  An open file is the sequence of what its \<^verbatim>\<open>Read\<close> calls return before the end
  of the file: a chunk of bytes, or an error.
\<close>

datatype read = Chunk bytes | ReadError error

text \<open>\<^verbatim>\<open>hex.EncodeToString\<close>: two digits of the table for each byte.\<close>

definition hextable :: string where
  "hextable = ''0123456789abcdef''"

fun EncodeToString :: "bytes \<Rightarrow> string" where
  "EncodeToString [] = []"
| "EncodeToString (b # bs) =
     hextable ! unat (drop_bit 4 b) # hextable ! unat (b AND 15) # EncodeToString bs"

text \<open>
  The multi-writer hands each chunk to every accumulator of the map;
  \<^verbatim>\<open>io.Copy\<close> stops at the first read error and returns it.
\<close>

definition write_all :: "(string \<Rightarrow> hash option) \<Rightarrow> bytes \<Rightarrow> (string \<Rightarrow> hash option)" where
  "write_all hashes p = (\<lambda>name. map_option (\<lambda>h. Write h p) (hashes name))"

fun Copy :: "(string \<Rightarrow> hash option) \<Rightarrow> read list \<Rightarrow> (string \<Rightarrow> hash option) \<times> error option" where
  "Copy hashes [] = (hashes, None)"
| "Copy hashes (Chunk p # rs) = Copy (write_all hashes p) rs"
| "Copy hashes (ReadError err # rs) = (hashes, Some err)"

text \<open>
  \<^verbatim>\<open>computeHashes\<close> returns the pair of a map and an error, \<^verbatim>\<open>nil\<close> being
  \<open>None\<close>. \<open>Open\<close> is \<^verbatim>\<open>os.Open\<close>.
\<close>

definition computeHashes ::
  "crypto \<Rightarrow> (string \<Rightarrow> error + read list) \<Rightarrow> string
     \<Rightarrow> (string \<Rightarrow> string option) option \<times> error option" where
  "computeHashes lib Open filePath =
     (let hashes = [''md5'' \<mapsto> New (md5_New lib),
                    ''sha1'' \<mapsto> New (sha1_New lib),
                    ''sha256'' \<mapsto> New (sha256_New lib),
                    ''sha512'' \<mapsto> New (sha512_New lib),
                    ''sha3-256'' \<mapsto> New (sha3_New256 lib),
                    ''sha3-512'' \<mapsto> New (sha3_New512 lib)]
      in case blake2b_New256 lib of
           Inl err \<Rightarrow> (None, Some err)
         | Inr blake256 \<Rightarrow>
             (case blake2b_New512 lib of
                Inl err \<Rightarrow> (None, Some err)
              | Inr blake512 \<Rightarrow>
                  (let hashes = hashes(''blake2b-256'' \<mapsto> New blake256,
                                       ''blake2b-512'' \<mapsto> New blake512)
                   in case Open filePath of
                        Inl err \<Rightarrow> (None, Some err)
                      | Inr file \<Rightarrow>
                          (case Copy hashes file of
                             (hashes, Some err) \<Rightarrow> (None, Some err)
                           | (hashes, None) \<Rightarrow>
                               (Some (\<lambda>name. map_option (\<lambda>h. EncodeToString (Sum h)) (hashes name)),
                                None)))))"

section \<open>Run-time panics in the classification\<close>

text \<open>
  Of the operations that the classification functions apply to the documents, a map
  read, the two-value form of a type assertion and a range over a slice cannot
  panic. The comparison \<^verbatim>\<open>==\<close> of two interface values can: it panics when both
  have the same dynamic type and that type, a slice or a map, is not comparable.
  \<open>Inl\<close> is that panic.
\<close>

datatype runtime_error = ComparingUncomparable

fun eq_iface :: "json \<Rightarrow> json \<Rightarrow> runtime_error + bool" where
  "eq_iface (JArr xs) (JArr ys) = Inl ComparingUncomparable"
| "eq_iface (JObj m) (JObj m') = Inl ComparingUncomparable"
| "eq_iface a b = Inr (a = b)"

text \<open>
  \<^verbatim>\<open>extractDuration\<close> is the one function that compares interface values:
  \<^verbatim>\<open>media["media"] != nil\<close> and \<^verbatim>\<open>trackMap["@type"] == "Video"\<close>. This is the
  function again, with both comparisons as \<open>eq_iface\<close> and a panic as a result of
  its own.
\<close>

fun duration_tracks_checked :: "(json \<Rightarrow> string) \<Rightarrow> json list \<Rightarrow> runtime_error + string option" where
  "duration_tracks_checked sprintf_v [] = Inr None"
| "duration_tracks_checked sprintf_v (track # tracks) =
     (case assert_map track of
        Some trackMap \<Rightarrow>
          (case eq_iface (index trackMap ''@type'') (JStr ''Video'') of
             Inl p \<Rightarrow> Inl p
           | Inr isVideo \<Rightarrow>
               if isVideo then
                 (case trackMap ''Duration'' of
                    Some duration \<Rightarrow> Inr (Some (sprintf_v duration))
                  | None \<Rightarrow> duration_tracks_checked sprintf_v tracks)
               else duration_tracks_checked sprintf_v tracks)
      | None \<Rightarrow> duration_tracks_checked sprintf_v tracks)"

definition extractDuration_checked ::
  "(json \<Rightarrow> string) \<Rightarrow> doc \<Rightarrow> doc \<Rightarrow> runtime_error + string" where
  "extractDuration_checked sprintf_v exif media =
     (case exif ''Duration'' of
        Some val \<Rightarrow> Inr (sprintf_v val)
      | None \<Rightarrow>
          (case eq_iface (index media ''media'') JNull of
             Inl p \<Rightarrow> Inl p
           | Inr isNil \<Rightarrow>
               if \<not> isNil then
                 (case assert_map (index media ''media'') of
                    Some mediaMap \<Rightarrow>
                      (case assert_slice (index mediaMap ''track'') of
                         Some tracks \<Rightarrow>
                           (case duration_tracks_checked sprintf_v tracks of
                              Inl p \<Rightarrow> Inl p
                            | Inr (Some s) \<Rightarrow> Inr s
                            | Inr None \<Rightarrow> Inr ''Unknown'')
                       | None \<Rightarrow> Inr ''Unknown'')
                  | None \<Rightarrow> Inr ''Unknown'')
               else Inr ''Unknown''))"

text \<open>
  The five calls of \<^verbatim>\<open>main\<close> that classify the file, in its order, and the fields
  of \<^verbatim>\<open>MediaMetadata\<close> that they fill. A panic in one of them ends the run.
\<close>

record classification =
  Duration :: string
  MediaIsEncrypted :: bool
  MimeType :: string
  MediaIsAnimation :: bool
  MediaVideoWithAudioOnly :: bool

definition classify ::
  "(json \<Rightarrow> string) \<Rightarrow> (string \<Rightarrow> error + string) \<Rightarrow> string \<Rightarrow> doc \<Rightarrow> doc
     \<Rightarrow> runtime_error + classification" where
  "classify sprintf_v TypeByFile filePath exif media =
     (case extractDuration_checked sprintf_v exif media of
        Inl p \<Rightarrow> Inl p
      | Inr duration \<Rightarrow>
          (let isEnc = isEncrypted media;
               mimeType = getMimeType TypeByFile filePath exif;
               isAnim = isAnimation mimeType exif media;
               videoAudioOnly = isVideoWithAudioOnly mimeType exif media
           in Inr \<lparr>Duration = duration, MediaIsEncrypted = isEnc, MimeType = mimeType,
                   MediaIsAnimation = isAnim, MediaVideoWithAudioOnly = videoAudioOnly\<rparr>))"

section \<open>The documents in the specification's terms\<close>

text \<open>
  The track list of a track document: the list under \<^verbatim>\<open>media.track\<close>, and no
  track at all when the media root is missing or is not an object, or when its
  \<^verbatim>\<open>track\<close> field is missing or is not a list.
\<close>

definition track_list :: "doc \<Rightarrow> json list" where
  "track_list media =
     (case media ''media'' of
        Some (JObj mediaRoot) \<Rightarrow>
          (case mediaRoot ''track'' of Some (JArr ts) \<Rightarrow> ts | _ \<Rightarrow> [])
      | _ \<Rightarrow> [])"

text \<open>A track document with the given track list, whatever else it holds.\<close>

definition with_tracks :: "doc \<Rightarrow> doc \<Rightarrow> json list \<Rightarrow> doc" where
  "with_tracks media mediaRoot ts = media(''media'' \<mapsto> JObj (mediaRoot(''track'' \<mapsto> JArr ts)))"

text \<open>
  A Video track, a track that has a Duration key, and a track that has both and so
  can give the duration.
\<close>

definition is_video_track :: "json \<Rightarrow> bool" where
  "is_video_track t = (case t of JObj m \<Rightarrow> m ''@type'' = Some (JStr ''Video'') | _ \<Rightarrow> False)"

definition has_duration :: "json \<Rightarrow> bool" where
  "has_duration t = (case t of JObj m \<Rightarrow> m ''Duration'' \<noteq> None | _ \<Rightarrow> False)"

definition video_with_duration :: "json \<Rightarrow> bool" where
  "video_with_duration t \<longleftrightarrow> is_video_track t \<and> has_duration t"

text \<open>
  The string form of the Duration field of a track that a search has found, and the
  sentinel when the search found none or the track has no such field.
\<close>

definition duration_of :: "(json \<Rightarrow> string) \<Rightarrow> json option \<Rightarrow> string" where
  "duration_of sprintf_v t =
     (case t of
        Some (JObj m) \<Rightarrow> (case m ''Duration'' of Some d \<Rightarrow> sprintf_v d | None \<Rightarrow> ''Unknown'')
      | _ \<Rightarrow> ''Unknown'')"

text \<open>
  The duration as the specification words it: the tag document's field if present,
  otherwise the Duration field of the first track whose discriminator is Video,
  otherwise the sentinel.
\<close>

definition spec_duration :: "(json \<Rightarrow> string) \<Rightarrow> doc \<Rightarrow> doc \<Rightarrow> string" where
  "spec_duration sprintf_v exif media =
     (case exif ''Duration'' of
        Some v \<Rightarrow> sprintf_v v
      | None \<Rightarrow> duration_of sprintf_v (find is_video_track (track_list media)))"

text \<open>
  The evidence one track gives for animation: its format is the one the MIME type
  names, and its frame count or its duration, as strings, speak of more than one frame.
\<close>

definition track_evidence :: "bool \<Rightarrow> bool \<Rightarrow> doc \<Rightarrow> bool" where
  "track_evidence isGIF isWebP m \<longleftrightarrow>
     (\<exists>f. m ''Format'' = Some (JStr f) \<and>
        ((isGIF \<and> Contains f ''GIF'') \<or> (isWebP \<and> Contains f ''WebP''))) \<and>
     ((\<exists>fc. m ''FrameCount'' = Some (JStr fc) \<and> fc \<noteq> ''1'') \<or>
      (\<exists>dur. m ''Duration'' = Some (JStr dur) \<and> dur \<noteq> ''0''))"

text \<open>
  Two track documents that the four functions reading the track document cannot tell
  apart, whatever the tag document, the MIME type and the formatter.
\<close>

definition same_classification :: "doc \<Rightarrow> doc \<Rightarrow> bool" where
  "same_classification media media' \<longleftrightarrow>
     (\<forall>sprintf_v mimeType exif.
        extractDuration sprintf_v exif media = extractDuration sprintf_v exif media' \<and>
        isAnimation mimeType exif media = isAnimation mimeType exif media' \<and>
        isEncrypted media = isEncrypted media' \<and>
        isVideoWithAudioOnly mimeType exif media = isVideoWithAudioOnly mimeType exif media')"

text \<open>Two lists of tracks on which each of the four loops does the same.\<close>

definition alike :: "json list \<Rightarrow> json list \<Rightarrow> bool" where
  "alike ts ts' \<longleftrightarrow>
     (\<forall>f. duration_tracks f ts = duration_tracks f ts') \<and>
     (\<forall>g w. animation_tracks g w ts = animation_tracks g w ts') \<and>
     encrypted_tracks ts = encrypted_tracks ts' \<and>
     (\<forall>flags. video_tracks ts flags = video_tracks ts' flags)"

section \<open>The digests in the specification's terms\<close>

text \<open>The eight algorithm names, and a string of lowercase hexadecimal digits.\<close>

definition algorithms :: "string set" where
  "algorithms = {''md5'', ''sha1'', ''sha256'', ''sha512'', ''sha3-256'', ''sha3-512'',
                 ''blake2b-256'', ''blake2b-512''}"

definition lower_hex :: "string \<Rightarrow> bool" where
  "lower_hex s = (set s \<subseteq> set ''0123456789abcdef'')"

text \<open>The bytes of a file: its chunks, one after the other.\<close>

fun contents :: "read list \<Rightarrow> bytes" where
  "contents [] = []"
| "contents (Chunk p # rs) = p @ contents rs"
| "contents (ReadError err # rs) = contents rs"

text \<open>The digest function behind each algorithm name.\<close>

definition digest_table ::
  "crypto \<Rightarrow> (bytes \<Rightarrow> bytes) \<Rightarrow> (bytes \<Rightarrow> bytes) \<Rightarrow> string \<Rightarrow> (bytes \<Rightarrow> bytes) option" where
  "digest_table lib blake256 blake512 =
     [''md5'' \<mapsto> md5_New lib, ''sha1'' \<mapsto> sha1_New lib, ''sha256'' \<mapsto> sha256_New lib,
      ''sha512'' \<mapsto> sha512_New lib, ''sha3-256'' \<mapsto> sha3_New256 lib,
      ''sha3-512'' \<mapsto> sha3_New512 lib, ''blake2b-256'' \<mapsto> blake256,
      ''blake2b-512'' \<mapsto> blake512]"

text \<open>
  A sample library for the examples: every digest function returns its input, the
  last one reversed.
\<close>

definition sample_crypto :: crypto where
  "sample_crypto =
     \<lparr>md5_New = (\<lambda>bs. bs), sha1_New = (\<lambda>bs. bs), sha256_New = (\<lambda>bs. bs),
      sha512_New = (\<lambda>bs. bs), sha3_New256 = (\<lambda>bs. bs), sha3_New512 = (\<lambda>bs. bs),
      blake2b_New256 = Inr (\<lambda>bs. bs), blake2b_New512 = Inr (\<lambda>bs. rev bs)\<rparr>"

declare show_nat.simps [simp del]
declare size_loop.simps [simp del]

section \<open>Helper lemmas\<close>

subsection \<open>Type assertions and strings\<close>

lemma assert_map_Some [simp]: "assert_map t = Some m \<longleftrightarrow> t = JObj m"
  by (cases t) auto

lemma assert_slice_Some [simp]: "assert_slice t = Some xs \<longleftrightarrow> t = JArr xs"
  by (cases t) auto

lemma assert_string_Some [simp]: "assert_string t = Some s \<longleftrightarrow> t = JStr s"
  by (cases t) auto

lemma assert_float64_Some [simp]: "assert_float64 t = Some x \<longleftrightarrow> t = JNum x"
  by (cases t) auto

lemma HasPrefix_iff: "HasPrefix s p \<longleftrightarrow> (\<exists>r. s = p @ r)"
  unfolding HasPrefix_def
  by (metis append_eq_conv_conj append_take_drop_id)

lemma Contains_iff: "Contains s sub \<longleftrightarrow> (\<exists>p q. s = p @ sub @ q)"
proof (induction s)
  case Nil
  then show ?case by simp
next
  case (Cons c s)
  show ?case
  proof
    assume "Contains (c # s) sub"
    then consider "HasPrefix (c # s) sub" | "Contains s sub" by auto
    then show "\<exists>p q. c # s = p @ sub @ q"
    proof cases
      case 1
      then obtain r where "c # s = sub @ r" by (auto simp: HasPrefix_iff)
      then have "c # s = [] @ sub @ r" by simp
      then show ?thesis by blast
    next
      case 2
      then obtain p q where "s = p @ sub @ q" using Cons.IH by blast
      then have "c # s = (c # p) @ sub @ q" by simp
      then show ?thesis by blast
    qed
  next
    assume "\<exists>p q. c # s = p @ sub @ q"
    then obtain p q where pq: "c # s = p @ sub @ q" by blast
    show "Contains (c # s) sub"
    proof (cases p)
      case Nil
      with pq have "HasPrefix (c # s) sub" by (auto simp: HasPrefix_iff)
      then show ?thesis by simp
    next
      case (Cons a p')
      with pq have "s = p' @ sub @ q" by simp
      then have "Contains s sub" using Cons.IH by blast
      then show ?thesis by simp
    qed
  qed
qed

subsection \<open>Every function reads the track document through its track list\<close>

lemma track_list_with_tracks [simp]: "track_list (with_tracks media mediaRoot ts) = ts"
  by (simp add: track_list_def with_tracks_def)

lemma track_list_absent:
  "\<not> (\<exists>mediaRoot ts. media ''media'' = Some (JObj mediaRoot) \<and> mediaRoot ''track'' = Some (JArr ts))
     \<Longrightarrow> track_list media = []"
  by (auto simp: track_list_def split: option.splits json.splits)

lemma isEncrypted_tracks: "isEncrypted media = encrypted_tracks (track_list media)"
  by (simp add: isEncrypted_def track_list_def index_def split: option.splits json.splits)

lemma isAnimation_tracks:
  "isAnimation mimeType exif media =
     (exif_frame_count exif \<or> exif_animation_flag exif \<or> exif_duration_positive exif \<or>
      animation_tracks (mimeType = ''image/gif'') (mimeType = ''image/webp'') (track_list media))"
  by (simp add: isAnimation_def track_list_def index_def Let_def split: option.splits json.splits)

lemma extractDuration_tracks:
  "extractDuration sprintf_v exif media =
     (case exif ''Duration'' of
        Some v \<Rightarrow> sprintf_v v
      | None \<Rightarrow> (case duration_tracks sprintf_v (track_list media) of
                   Some s \<Rightarrow> s | None \<Rightarrow> ''Unknown''))"
  by (simp add: extractDuration_def track_list_def index_def split: option.splits json.splits)

lemma isVideoWithAudioOnly_tracks:
  "isVideoWithAudioOnly mimeType exif media =
     (HasPrefix mimeType ''video/'' \<and>
      \<not> fst (video_tracks (track_list media) (False, False)) \<and>
      \<not> snd (video_tracks (track_list media) (False, False)) \<and>
      \<not> exif_has_key exif [''VideoFrameRate'', ''FrameRate''])"
  by (simp add: isVideoWithAudioOnly_def track_list_def index_def Let_def
      split: option.splits json.splits)

subsection \<open>What the loops over the tracks compute\<close>

lemma encrypted_tracks_iff:
  "encrypted_tracks ts \<longleftrightarrow>
     (\<exists>t\<in>set ts. \<exists>m s. t = JObj m \<and> m ''Encryption'' = Some (JStr s) \<and>
        EqualFold s ''Encrypted'')"
  by (induction ts) (auto split: option.splits)

lemma index_eq_JStr [simp]: "index m k = JStr s \<longleftrightarrow> m k = Some (JStr s)"
  by (simp add: index_def split: option.splits)

lemma index_eq_JNum [simp]: "index m k = JNum x \<longleftrightarrow> m k = Some (JNum x)"
  by (simp add: index_def split: option.splits)

lemma assert_string_index:
  "assert_string (index m k) = (case m k of Some (JStr s) \<Rightarrow> Some s | _ \<Rightarrow> None)"
  by (simp add: index_def split: option.splits json.splits)

lemma video_track_step_fst:
  "fst (video_track_step m (a, b)) \<longleftrightarrow> a \<or> m ''@type'' = Some (JStr ''Video'')"
  by (auto simp: video_track_step_def Let_def assert_string_index split: option.splits json.splits)

lemma video_track_step_snd:
  "snd (video_track_step m (a, b)) \<longleftrightarrow>
     b \<or> (m ''@type'' = Some (JStr ''General'') \<and>
          (\<exists>vc n. m ''VideoCount'' = Some (JStr vc) \<and> Atoi vc = Some n \<and> n > 0))"
  by (auto simp: video_track_step_def Let_def assert_string_index split: option.splits json.splits)

lemma video_tracks_fst:
  "fst (video_tracks ts (a, b)) \<longleftrightarrow>
     a \<or> (\<exists>t\<in>set ts. \<exists>m. t = JObj m \<and> m ''@type'' = Some (JStr ''Video''))"
proof (induction ts arbitrary: a b)
  case Nil
  then show ?case by simp
next
  case (Cons t ts)
  show ?case
  proof (cases "assert_map t")
    case None
    then have "\<And>m. t \<noteq> JObj m" by (cases t) auto
    with None Cons.IH [of a b] show ?thesis by simp
  next
    case (Some m)
    then have t: "t = JObj m" by simp
    obtain a' b' where s: "video_track_step m (a, b) = (a', b')"
      by (cases "video_track_step m (a, b)")
    have a': "a' \<longleftrightarrow> a \<or> m ''@type'' = Some (JStr ''Video'')"
      using video_track_step_fst [of m a b] s by simp
    have "fst (video_tracks (t # ts) (a, b)) = fst (video_tracks ts (a', b'))"
      using t s by simp
    also have "\<dots> \<longleftrightarrow>
       a' \<or> (\<exists>t\<in>set ts. \<exists>m. t = JObj m \<and> m ''@type'' = Some (JStr ''Video''))"
      by (rule Cons.IH)
    finally show ?thesis
      unfolding a' t by simp
  qed
qed

lemma video_tracks_snd:
  "snd (video_tracks ts (a, b)) \<longleftrightarrow>
     b \<or> (\<exists>t\<in>set ts. \<exists>m vc n. t = JObj m \<and> m ''@type'' = Some (JStr ''General'') \<and>
            m ''VideoCount'' = Some (JStr vc) \<and> Atoi vc = Some n \<and> n > 0)"
proof (induction ts arbitrary: a b)
  case Nil
  then show ?case by simp
next
  case (Cons t ts)
  show ?case
  proof (cases "assert_map t")
    case None
    then have "\<And>m. t \<noteq> JObj m" by (cases t) auto
    with None Cons.IH [of a b] show ?thesis by simp
  next
    case (Some m)
    then have t: "t = JObj m" by simp
    obtain a' b' where s: "video_track_step m (a, b) = (a', b')"
      by (cases "video_track_step m (a, b)")
    have b': "b' \<longleftrightarrow> b \<or> (m ''@type'' = Some (JStr ''General'') \<and>
          (\<exists>vc n. m ''VideoCount'' = Some (JStr vc) \<and> Atoi vc = Some n \<and> n > 0))"
      using video_track_step_snd [of m a b] s by simp
    have "snd (video_tracks (t # ts) (a, b)) = snd (video_tracks ts (a', b'))"
      using t s by simp
    also have "\<dots> \<longleftrightarrow>
       b' \<or> (\<exists>t\<in>set ts. \<exists>m vc n. t = JObj m \<and> m ''@type'' = Some (JStr ''General'') \<and>
            m ''VideoCount'' = Some (JStr vc) \<and> Atoi vc = Some n \<and> n > 0)"
      by (rule Cons.IH)
    finally show ?thesis
      unfolding b' t by simp
  qed
qed

lemma exif_has_key_two:
  "exif_has_key exif [k1, k2] \<longleftrightarrow> exif k1 \<noteq> None \<or> exif k2 \<noteq> None"
  by (auto split: option.splits)

lemma string_evidence:
  "(case assert_string (index m k) of Some s \<Rightarrow> s \<noteq> c | None \<Rightarrow> False) \<longleftrightarrow>
     (\<exists>s. m k = Some (JStr s) \<and> s \<noteq> c)"
proof (cases "m k")
  case None
  then show ?thesis by (simp add: index_def)
next
  case (Some v)
  then show ?thesis by (cases v) (simp_all add: index_def)
qed

lemma format_relevant:
  "(isGIF \<and> Contains (case assert_string (index m ''Format'') of Some s \<Rightarrow> s | None \<Rightarrow> []) ''GIF'') \<or>
   (isWebP \<and> Contains (case assert_string (index m ''Format'') of Some s \<Rightarrow> s | None \<Rightarrow> []) ''WebP'')
   \<longleftrightarrow>
   (\<exists>f. m ''Format'' = Some (JStr f) \<and>
      ((isGIF \<and> Contains f ''GIF'') \<or> (isWebP \<and> Contains f ''WebP'')))"
proof (cases "m ''Format''")
  case None
  then show ?thesis by (simp add: index_def)
next
  case (Some v)
  then show ?thesis by (cases v) (simp_all add: index_def)
qed

lemma if_chain:
  "(if R then (if F then True else if D then True else A) else A) \<longleftrightarrow> (R \<and> (F \<or> D)) \<or> A"
  by auto

lemma animation_tracks_Cons_obj:
  "animation_tracks isGIF isWebP (JObj m # ts) \<longleftrightarrow>
     track_evidence isGIF isWebP m \<or> animation_tracks isGIF isWebP ts"
proof -
  have "animation_tracks isGIF isWebP (JObj m # ts) \<longleftrightarrow>
    (if (isGIF \<and> Contains (case assert_string (index m ''Format'') of Some s \<Rightarrow> s | None \<Rightarrow> []) ''GIF'') \<or>
        (isWebP \<and> Contains (case assert_string (index m ''Format'') of Some s \<Rightarrow> s | None \<Rightarrow> []) ''WebP'')
     then (if (case assert_string (index m ''FrameCount'') of Some s \<Rightarrow> s \<noteq> ''1'' | None \<Rightarrow> False)
           then True
           else if (case assert_string (index m ''Duration'') of Some s \<Rightarrow> s \<noteq> ''0'' | None \<Rightarrow> False)
           then True else animation_tracks isGIF isWebP ts)
     else animation_tracks isGIF isWebP ts)"
    by (simp add: Let_def)
  also have "\<dots> \<longleftrightarrow>
    (((isGIF \<and> Contains (case assert_string (index m ''Format'') of Some s \<Rightarrow> s | None \<Rightarrow> []) ''GIF'') \<or>
      (isWebP \<and> Contains (case assert_string (index m ''Format'') of Some s \<Rightarrow> s | None \<Rightarrow> []) ''WebP'')) \<and>
     ((case assert_string (index m ''FrameCount'') of Some s \<Rightarrow> s \<noteq> ''1'' | None \<Rightarrow> False) \<or>
      (case assert_string (index m ''Duration'') of Some s \<Rightarrow> s \<noteq> ''0'' | None \<Rightarrow> False))) \<or>
    animation_tracks isGIF isWebP ts"
    by (rule if_chain)
  also have "\<dots> \<longleftrightarrow> track_evidence isGIF isWebP m \<or> animation_tracks isGIF isWebP ts"
    unfolding format_relevant string_evidence track_evidence_def ..
  finally show ?thesis .
qed

lemma animation_tracks_Cons_other:
  assumes "\<And>m. t \<noteq> JObj m"
  shows "animation_tracks isGIF isWebP (t # ts) = animation_tracks isGIF isWebP ts"
proof -
  have "assert_map t = None" using assms by (cases t) auto
  then show ?thesis by simp
qed

lemma animation_tracks_iff:
  "animation_tracks isGIF isWebP ts \<longleftrightarrow>
     (\<exists>t\<in>set ts. \<exists>m. t = JObj m \<and> track_evidence isGIF isWebP m)"
proof (induction ts)
  case Nil
  then show ?case by simp
next
  case (Cons t ts)
  show ?case
  proof (cases "\<exists>m. t = JObj m")
    case True
    then obtain m where t: "t = JObj m" by blast
    show ?thesis
      unfolding t animation_tracks_Cons_obj Cons.IH by simp
  next
    case False
    then have "animation_tracks isGIF isWebP (t # ts) = animation_tracks isGIF isWebP ts"
      by (intro animation_tracks_Cons_other) blast
    with False Cons.IH show ?thesis by simp
  qed
qed

lemma duration_tracks_Cons_hit:
  "video_with_duration t \<Longrightarrow>
     duration_tracks sprintf_v (t # ts) = Some (duration_of sprintf_v (Some t))"
  by (cases t)
    (auto simp: video_with_duration_def is_video_track_def has_duration_def duration_of_def)

lemma duration_tracks_Cons_miss:
  "\<not> video_with_duration t \<Longrightarrow>
     duration_tracks sprintf_v (t # ts) = duration_tracks sprintf_v ts"
  by (cases t)
    (auto simp: video_with_duration_def is_video_track_def has_duration_def
      split: option.splits)

lemma duration_tracks_find:
  "duration_tracks sprintf_v ts =
     map_option (\<lambda>t. duration_of sprintf_v (Some t)) (find video_with_duration ts)"
proof (induction ts)
  case Nil
  then show ?case by simp
next
  case (Cons t ts)
  show ?case
  proof (cases "video_with_duration t")
    case True
    then show ?thesis by (simp del: duration_tracks.simps add: duration_tracks_Cons_hit)
  next
    case False
    then show ?thesis by (simp del: duration_tracks.simps add: duration_tracks_Cons_miss Cons.IH)
  qed
qed

lemma duration_of_None: "duration_of sprintf_v None = ''Unknown''"
  by (simp add: duration_of_def)

lemma two_video_tracks_code:
  "extractDuration sprintf_v Map.empty
     (with_tracks Map.empty Map.empty
        [JObj [''@type'' \<mapsto> JStr ''Video''],
         JObj [''@type'' \<mapsto> JStr ''Video'', ''Duration'' \<mapsto> JStr ''5'']])
   = sprintf_v (JStr ''5'')"
  by (simp add: extractDuration_tracks)

lemma two_video_tracks_spec:
  "spec_duration sprintf_v Map.empty
     (with_tracks Map.empty Map.empty
        [JObj [''@type'' \<mapsto> JStr ''Video''],
         JObj [''@type'' \<mapsto> JStr ''Video'', ''Duration'' \<mapsto> JStr ''5'']])
   = ''Unknown''"
  by (simp add: spec_duration_def is_video_track_def duration_of_def)

subsection \<open>The loop of the size formatter\<close>

lemma div_unit_less: "(n::int) < 1000 * m \<Longrightarrow> n div 1000 < m"
proof -
  assume a: "n < 1000 * m"
  have "n = 1000 * (n div 1000) + n mod 1000" by simp
  moreover have "0 \<le> n mod 1000" by simp
  ultimately show ?thesis using a by linarith
qed

lemma div_unit_ge: "1000 * m \<le> (n::int) \<Longrightarrow> m \<le> n div 1000"
proof -
  assume a: "1000 * m \<le> n"
  have "n = 1000 * (n div 1000) + n mod 1000" by simp
  moreover have "n mod 1000 < 1000" by simp
  ultimately show ?thesis using a by linarith
qed

lemma unit_le_power: "1000 * 1000 ^ k \<le> (n::int) \<Longrightarrow> 1000 \<le> n"
proof -
  assume a: "1000 * 1000 ^ k \<le> n"
  have "(1::int) \<le> 1000 ^ k" by simp
  then have "(1000::int) * 1 \<le> 1000 * 1000 ^ k" by (intro mult_left_mono) simp_all
  with a show ?thesis by linarith
qed

lemma size_loop_stop: "n < 1000 \<Longrightarrow> size_loop n dv ex = (dv, ex)"
  by (simp add: size_loop.simps)

lemma size_loop_step:
  "1000 \<le> n \<Longrightarrow> size_loop n dv ex = size_loop (n div 1000) (wrap64 (dv * 1000)) (ex + 1)"
  by (subst size_loop.simps) simp

lemma size_loop_exp_mono: "ex \<le> snd (size_loop n dv ex)"
proof (induction n dv ex rule: size_loop.induct)
  case (1 n dv ex)
  show ?case
  proof (cases "1000 \<le> n")
    case True
    with "1.IH" have "ex + 1 \<le> snd (size_loop (n div 1000) (wrap64 (dv * 1000)) (ex + 1))"
      by simp
    with True show ?thesis by (simp add: size_loop_step)
  next
    case False
    then show ?thesis by (simp add: size_loop_stop)
  qed
qed

lemma size_loop_exp_upper:
  "n < 1000 ^ (k + 1) \<Longrightarrow> snd (size_loop n dv ex) \<le> ex + k"
proof (induction k arbitrary: n dv ex)
  case 0
  then show ?case by (simp add: size_loop_stop)
next
  case (Suc k)
  show ?case
  proof (cases "1000 \<le> n")
    case True
    from Suc.prems have "n < 1000 * 1000 ^ (k + 1)" by simp
    then have "n div 1000 < 1000 ^ (k + 1)" by (rule div_unit_less)
    then have "snd (size_loop (n div 1000) (wrap64 (dv * 1000)) (ex + 1)) \<le> ex + 1 + k"
      by (rule Suc.IH)
    with True show ?thesis by (simp add: size_loop_step)
  next
    case False
    then show ?thesis by (simp add: size_loop_stop)
  qed
qed

lemma size_loop_exp_lower:
  "1000 ^ k \<le> n \<Longrightarrow> ex + k \<le> snd (size_loop n dv ex)"
proof (induction k arbitrary: n dv ex)
  case 0
  then show ?case by (simp add: size_loop_exp_mono)
next
  case (Suc k)
  from Suc.prems have p: "1000 * 1000 ^ k \<le> n" by simp
  then have big: "1000 \<le> n" by (rule unit_le_power)
  from p have "1000 ^ k \<le> n div 1000" by (rule div_unit_ge)
  then have "ex + 1 + k \<le> snd (size_loop (n div 1000) (wrap64 (dv * 1000)) (ex + 1))"
    by (rule Suc.IH)
  with big show ?case by (simp add: size_loop_step)
qed

lemma humanReadableSize_result:
  "1000 \<le> bytes \<Longrightarrow>
   humanReadableSize sprintf_f1 bytes =
     (let ex = snd (size_loop (bytes div 1000) 1000 0);
          dv = fst (size_loop (bytes div 1000) 1000 0)
      in if ex < 4 then Inr (sprintf_f1 bytes dv @ '' '' @ units ! ex)
         else Inl (IndexOutOfRange ex 4))"
  by (simp add: humanReadableSize_def units_def Let_def split: prod.splits)

lemma wrap64_id: "0 \<le> x \<Longrightarrow> x < 2 ^ 63 \<Longrightarrow> wrap64 x = x"
  by (simp add: wrap64_def)

lemma size_loop_range:
  "1000 ^ k \<le> n \<Longrightarrow> n < 1000 ^ (k + 1) \<Longrightarrow> 0 < dv \<Longrightarrow> dv * 1000 ^ k < 2 ^ 63 \<Longrightarrow>
     size_loop n dv ex = (dv * 1000 ^ k, ex + k)"
proof (induction k arbitrary: n dv ex)
  case 0
  then show ?case by (simp add: size_loop_stop)
next
  case (Suc k)
  from Suc.prems(1) have p: "1000 * 1000 ^ k \<le> n" by simp
  then have big: "1000 \<le> n" by (rule unit_le_power)
  from p have lo: "1000 ^ k \<le> n div 1000" by (rule div_unit_ge)
  from Suc.prems(2) have "n < 1000 * 1000 ^ (k + 1)" by simp
  then have hi: "n div 1000 < 1000 ^ (k + 1)" by (rule div_unit_less)
  have "(1::int) \<le> 1000 ^ k" by simp
  with Suc.prems(3) have "dv * 1000 * 1 \<le> dv * 1000 * 1000 ^ k"
    by (intro mult_left_mono) simp_all
  with Suc.prems(4) have "dv * 1000 < 2 ^ 63" by (simp add: mult.assoc)
  with Suc.prems(3) have w: "wrap64 (dv * 1000) = dv * 1000"
    by (intro wrap64_id) simp_all
  from Suc.prems(3) have pos: "0 < dv * 1000" by simp
  from Suc.prems(4) have fit: "dv * 1000 * 1000 ^ k < 2 ^ 63" by (simp add: mult.assoc)
  have "size_loop (n div 1000) (dv * 1000) (ex + 1) = (dv * 1000 * 1000 ^ k, ex + 1 + k)"
    using lo hi pos fit by (rule Suc.IH)
  with big w show ?case by (simp add: size_loop_step mult.assoc)
qed

lemma humanReadableSize_below_unit:
  "0 \<le> bytes \<Longrightarrow> bytes < 1000 \<Longrightarrow>
     humanReadableSize sprintf_f1 bytes = Inr (show_nat (nat bytes) @ '' B'')"
  by (simp add: humanReadableSize_def sprintf_d_def)

lemma humanReadableSize_unit:
  assumes "k < 4" and "1000 ^ (k + 1) \<le> bytes" and "bytes < 1000 ^ (k + 2)"
  shows "humanReadableSize sprintf_f1 bytes =
           Inr (sprintf_f1 bytes (1000 ^ (k + 1)) @ '' '' @ units ! k)"
proof -
  from assms(2) have p: "1000 * 1000 ^ k \<le> bytes" by simp
  then have big: "1000 \<le> bytes" by (rule unit_le_power)
  from p have lo: "1000 ^ k \<le> bytes div 1000" by (rule div_unit_ge)
  from assms(3) have "bytes < 1000 * 1000 ^ (k + 1)" by simp
  then have hi: "bytes div 1000 < 1000 ^ (k + 1)" by (rule div_unit_less)
  from assms(1) have "k \<le> 3" by simp
  then have "(1000::int) ^ k \<le> 1000 ^ 3" by (intro power_increasing) simp_all
  then have fit: "(1000::int) * 1000 ^ k < 2 ^ 63" by simp
  have "size_loop (bytes div 1000) 1000 0 = (1000 * 1000 ^ k, 0 + k)"
    using lo hi _ fit by (rule size_loop_range) simp
  with big assms(1) show ?thesis
    by (simp add: humanReadableSize_result Let_def)
qed

lemma humanReadableSize_500:
  "humanReadableSize sprintf_f1 500 = Inr ''500 B''"
  by (simp add: humanReadableSize_def sprintf_d_def show_nat.simps)

lemma humanReadableSize_1500:
  "humanReadableSize sprintf_f1 1500 = Inr (sprintf_f1 1500 1000 @ '' KB'')"
  using humanReadableSize_unit [of 0 1500 sprintf_f1] by (simp add: units_def)

lemma humanReadableSize_1500000:
  "humanReadableSize sprintf_f1 1500000 = Inr (sprintf_f1 1500000 1000000 @ '' MB'')"
  using humanReadableSize_unit [of 1 1500000 sprintf_f1] by (simp add: units_def)

lemma humanReadableSize_max:
  "humanReadableSize sprintf_f1 9223372036854775807 = Inl (IndexOutOfRange 5 4)"
  by (simp add: humanReadableSize_def units_def size_loop.simps)

subsection \<open>The digest engine\<close>

lemma hextable_high: "hextable ! unat (drop_bit 4 (b :: 8 word)) \<in> set hextable"
proof -
  have "unat b < 2 ^ 8" using unsigned_less [of b] by simp
  then have "unat b div 2 ^ 4 < 16" by simp
  then have "unat (drop_bit 4 b) < length hextable"
    by (simp add: drop_bit_eq_div unat_div hextable_def)
  then show ?thesis by (rule nth_mem)
qed

lemma hextable_low: "hextable ! unat ((b :: 8 word) AND 15) \<in> set hextable"
proof -
  have "b AND 15 \<le> 15" by (rule word_and_le1)
  then have "unat (b AND 15) \<le> unat (15 :: 8 word)" by (simp add: word_le_nat_alt)
  then have "unat (b AND 15) < length hextable" by (simp add: hextable_def)
  then show ?thesis by (rule nth_mem)
qed

lemma lower_hex_EncodeToString: "lower_hex (EncodeToString bs)"
proof (induction bs)
  case Nil
  then show ?case by (simp add: lower_hex_def)
next
  case (Cons b bs)
  have "hextable ! unat (drop_bit 4 b) \<in> set ''0123456789abcdef''"
    using hextable_high [of b] by (simp only: hextable_def)
  moreover have "hextable ! unat (b AND 15) \<in> set ''0123456789abcdef''"
    using hextable_low [of b] by (simp only: hextable_def)
  ultimately show ?case using Cons.IH by (simp add: lower_hex_def)
qed

lemma dom_write_all: "dom (write_all hashes p) = dom hashes"
  by (auto simp: write_all_def dom_def)

lemma Copy_dom: "dom (fst (Copy hashes rs)) = dom hashes"
proof (induction rs arbitrary: hashes)
  case Nil
  then show ?case by simp
next
  case (Cons r rs)
  then show ?case by (cases r) (simp_all add: dom_write_all)
qed

lemma Copy_error_iff:
  "snd (Copy hashes rs) = None \<longleftrightarrow> (\<forall>err. ReadError err \<notin> set rs)"
proof (induction rs arbitrary: hashes)
  case Nil
  then show ?case by simp
next
  case (Cons r rs)
  then show ?case by (cases r) auto
qed

lemma dom_results:
  "dom (\<lambda>name. map_option f (hashes name)) = dom hashes"
  by (auto simp: dom_def)

lemma dom_initial:
  "dom ([''md5'' \<mapsto> h1, ''sha1'' \<mapsto> h2, ''sha256'' \<mapsto> h3, ''sha512'' \<mapsto> h4,
         ''sha3-256'' \<mapsto> h5, ''sha3-512'' \<mapsto> h6, ''blake2b-256'' \<mapsto> h7,
         ''blake2b-512'' \<mapsto> h8]) = algorithms"
  unfolding algorithms_def dom_fun_upd dom_empty
  by (simp add: insert_commute)

lemma card_algorithms: "card algorithms = 8"
  by (simp add: algorithms_def)

lemma computeHashes_success:
  assumes "blake2b_New256 lib = Inr b256" and "blake2b_New512 lib = Inr b512"
    and "Open filePath = Inr rs" and "\<forall>err. ReadError err \<notin> set rs"
  shows "\<exists>m. computeHashes lib Open filePath = (Some m, None) \<and> dom m = algorithms \<and>
           (\<forall>name\<in>algorithms. \<exists>h. m name = Some h \<and> lower_hex h)"
proof -
  let ?hashes = "[''md5'' \<mapsto> New (md5_New lib), ''sha1'' \<mapsto> New (sha1_New lib),
      ''sha256'' \<mapsto> New (sha256_New lib), ''sha512'' \<mapsto> New (sha512_New lib),
      ''sha3-256'' \<mapsto> New (sha3_New256 lib), ''sha3-512'' \<mapsto> New (sha3_New512 lib),
      ''blake2b-256'' \<mapsto> New b256, ''blake2b-512'' \<mapsto> New b512]"
  obtain hs e where c: "Copy ?hashes rs = (hs, e)" by (cases "Copy ?hashes rs")
  have e: "e = None" using Copy_error_iff [of ?hashes rs] assms(4) c by simp
  have d: "dom hs = algorithms" using Copy_dom [of ?hashes rs] c dom_initial by simp
  let ?m = "\<lambda>name. map_option (\<lambda>h. EncodeToString (Sum h)) (hs name)"
  have r: "computeHashes lib Open filePath = (Some ?m, None)"
    using assms(1-3) c e by (simp add: computeHashes_def Let_def)
  have dm: "dom ?m = algorithms" using d by (simp only: dom_results)
  have "\<forall>name\<in>algorithms. \<exists>h. ?m name = Some h \<and> lower_hex h"
  proof
    fix name assume "name \<in> algorithms"
    with d obtain h where "hs name = Some h" by (auto simp: dom_def)
    then have "?m name = Some (EncodeToString (Sum h))" by simp
    then show "\<exists>h. ?m name = Some h \<and> lower_hex h"
      using lower_hex_EncodeToString by blast
  qed
  with r dm show ?thesis by blast
qed

lemma computeHashes_failure:
  assumes "(\<exists>err. blake2b_New256 lib = Inl err) \<or> (\<exists>err. blake2b_New512 lib = Inl err) \<or>
           (\<exists>err. Open filePath = Inl err) \<or>
           (\<exists>file err. Open filePath = Inr file \<and> ReadError err \<in> set file)"
  shows "\<exists>err. computeHashes lib Open filePath = (None, Some err)"
proof (cases "blake2b_New256 lib")
  case (Inl err)
  then show ?thesis by (simp add: computeHashes_def Let_def)
next
  case b256: (Inr b256)
  show ?thesis
  proof (cases "blake2b_New512 lib")
    case (Inl err)
    with b256 show ?thesis by (simp add: computeHashes_def Let_def)
  next
    case b512: (Inr b512)
    show ?thesis
    proof (cases "Open filePath")
      case (Inl err)
      with b256 b512 show ?thesis by (simp add: computeHashes_def Let_def)
    next
      case (Inr rs)
      with assms b256 b512 obtain err where err: "ReadError err \<in> set rs" by auto
      let ?hashes = "[''md5'' \<mapsto> New (md5_New lib), ''sha1'' \<mapsto> New (sha1_New lib),
        ''sha256'' \<mapsto> New (sha256_New lib), ''sha512'' \<mapsto> New (sha512_New lib),
        ''sha3-256'' \<mapsto> New (sha3_New256 lib), ''sha3-512'' \<mapsto> New (sha3_New512 lib),
        ''blake2b-256'' \<mapsto> New b256, ''blake2b-512'' \<mapsto> New b512]"
      obtain hs e where c: "Copy ?hashes rs = (hs, e)" by (cases "Copy ?hashes rs")
      have "e \<noteq> None" using Copy_error_iff [of ?hashes rs] err c by auto
      then obtain e' where "e = Some e'" by auto
      with b256 b512 Inr c show ?thesis by (simp add: computeHashes_def Let_def)
    qed
  qed
qed

lemma Copy_written:
  "\<forall>err. ReadError err \<notin> set rs \<Longrightarrow>
     fst (Copy hashes rs) name =
       map_option (\<lambda>h. h\<lparr>written := written h @ contents rs\<rparr>) (hashes name)"
proof (induction rs arbitrary: hashes)
  case Nil
  show ?case by (cases "hashes name") simp_all
next
  case (Cons r rs)
  show ?case
  proof (cases r)
    case (Chunk p)
    with Cons.prems have "\<forall>err. ReadError err \<notin> set rs" by simp
    then have "fst (Copy (write_all hashes p) rs) name =
       map_option (\<lambda>h. h\<lparr>written := written h @ contents rs\<rparr>) (write_all hashes p name)"
      by (rule Cons.IH)
    with Chunk show ?thesis
      by (cases "hashes name") (simp_all add: write_all_def Write_def)
  next
    case (ReadError err)
    with Cons.prems have False by auto
    then show ?thesis ..
  qed
qed

lemma computeHashes_digests:
  assumes "blake2b_New256 lib = Inr blake256" and "blake2b_New512 lib = Inr blake512"
    and "Open filePath = Inr rs" and "\<forall>err. ReadError err \<notin> set rs"
  shows "computeHashes lib Open filePath =
           (Some (\<lambda>name. map_option (\<lambda>f. EncodeToString (f (contents rs)))
                           (digest_table lib blake256 blake512 name)),
            None)"
proof -
  let ?hashes = "[''md5'' \<mapsto> New (md5_New lib), ''sha1'' \<mapsto> New (sha1_New lib),
      ''sha256'' \<mapsto> New (sha256_New lib), ''sha512'' \<mapsto> New (sha512_New lib),
      ''sha3-256'' \<mapsto> New (sha3_New256 lib), ''sha3-512'' \<mapsto> New (sha3_New512 lib),
      ''blake2b-256'' \<mapsto> New blake256, ''blake2b-512'' \<mapsto> New blake512]"
  obtain hs e where c: "Copy ?hashes rs = (hs, e)" by (cases "Copy ?hashes rs")
  have e: "e = None" using Copy_error_iff [of ?hashes rs] assms(4) c by simp
  have w: "\<And>name. hs name = map_option (\<lambda>h. h\<lparr>written := written h @ contents rs\<rparr>) (?hashes name)"
    using Copy_written [OF assms(4), of ?hashes] c by simp
  have "(\<lambda>name. map_option (\<lambda>h. EncodeToString (Sum h)) (hs name)) =
        (\<lambda>name. map_option (\<lambda>f. EncodeToString (f (contents rs)))
                           (digest_table lib blake256 blake512 name))"
  proof
    fix name
    show "map_option (\<lambda>h. EncodeToString (Sum h)) (hs name) =
          map_option (\<lambda>f. EncodeToString (f (contents rs))) (digest_table lib blake256 blake512 name)"
      unfolding w digest_table_def
      by (simp add: Sum_def New_def)
  qed
  moreover have "computeHashes lib Open filePath =
      (Some (\<lambda>name. map_option (\<lambda>h. EncodeToString (Sum h)) (hs name)), None)"
    using assms(1-3) c e by (simp add: computeHashes_def Let_def)
  ultimately show ?thesis by simp
qed

lemma sample_success:
  "\<exists>m. computeHashes sample_crypto (\<lambda>p. Inr [Chunk [1, 2], Chunk [255]]) ''a.bin'' = (Some m, None) \<and>
       m ''md5'' = Some ''0102ff'' \<and> m ''blake2b-512'' = Some ''ff0201'' \<and> m ''crc32'' = None"
  by (simp add: computeHashes_def sample_crypto_def Let_def New_def Write_def Sum_def
      write_all_def hextable_def)

subsection \<open>Values of the wrong type\<close>

lemma not_string: "(\<And>s. v \<noteq> JStr s) \<Longrightarrow> assert_string v = None"
  by (cases v) auto

lemma not_number: "(\<And>c. v \<noteq> JNum c) \<Longrightarrow> assert_float64 v = None"
  by (cases v) auto

lemma not_object: "(\<And>m. v \<noteq> JObj m) \<Longrightarrow> assert_map v = None"
  by (cases v) auto

lemma string_get_mistyped:
  assumes "assert_string v = None"
  shows "assert_string (index (m(k \<mapsto> v)) k') = assert_string (index (m(k := None)) k')"
  using assms by (simp add: index_def)

lemma index_upd: "index (m(k \<mapsto> v)) k' = (if k' = k then v else index m k')"
  by (simp add: index_def)

lemma index_del: "index (m(k := None)) k' = (if k' = k then JNull else index m k')"
  by (simp add: index_def)

lemma same_classification_tracks:
  assumes "track_list media = track_list media'"
  shows "same_classification media media'"
  unfolding same_classification_def extractDuration_tracks isAnimation_tracks
    isEncrypted_tracks isVideoWithAudioOnly_tracks assms
  by simp

lemma track_list_root_mistyped:
  assumes "\<forall>r. v \<noteq> JObj r"
  shows "track_list (media(''media'' \<mapsto> v)) = track_list (media(''media'' := None))"
  using assms by (cases v) (simp_all add: track_list_def)

lemma track_list_track_mistyped:
  assumes "\<forall>ts. v \<noteq> JArr ts"
  shows "track_list (media(''media'' \<mapsto> JObj (r(''track'' \<mapsto> v)))) =
         track_list (media(''media'' \<mapsto> JObj (r(''track'' := None))))"
  using assms by (cases v) (simp_all add: track_list_def)

lemma encrypted_tracks_append:
  "encrypted_tracks (xs @ ys) \<longleftrightarrow> encrypted_tracks xs \<or> encrypted_tracks ys"
  unfolding encrypted_tracks_iff by (simp add: bex_Un)

lemma animation_tracks_append:
  "animation_tracks g w (xs @ ys) \<longleftrightarrow> animation_tracks g w xs \<or> animation_tracks g w ys"
  unfolding animation_tracks_iff by (simp add: bex_Un)

lemma video_tracks_append:
  "video_tracks (xs @ ys) flags = video_tracks ys (video_tracks xs flags)"
  by (induction xs arbitrary: flags) (simp_all split: option.splits)

lemma duration_tracks_append:
  "duration_tracks f (xs @ ys) =
     (case duration_tracks f xs of Some s \<Rightarrow> Some s | None \<Rightarrow> duration_tracks f ys)"
  by (induction xs) (simp_all split: option.splits)

lemma alike_middle:
  assumes "alike ts ts'"
  shows "alike (xs @ ts @ ys) (xs @ ts' @ ys)"
proof -
  have d: "\<And>f. duration_tracks f ts = duration_tracks f ts'"
    and a: "\<And>g w. animation_tracks g w ts = animation_tracks g w ts'"
    and e: "encrypted_tracks ts = encrypted_tracks ts'"
    and v: "\<And>flags. video_tracks ts flags = video_tracks ts' flags"
    using assms by (auto simp: alike_def)
  show ?thesis
    unfolding alike_def duration_tracks_append animation_tracks_append
      encrypted_tracks_append video_tracks_append d a e v
    by simp
qed

lemma alike_same_classification:
  assumes "alike ts ts'"
  shows "same_classification (with_tracks media r ts) (with_tracks media r ts')"
proof -
  have d: "\<And>f. duration_tracks f ts = duration_tracks f ts'"
    and a: "\<And>g w. animation_tracks g w ts = animation_tracks g w ts'"
    and e: "encrypted_tracks ts = encrypted_tracks ts'"
    and v: "\<And>flags. video_tracks ts flags = video_tracks ts' flags"
    using assms by (auto simp: alike_def)
  show ?thesis
    unfolding same_classification_def extractDuration_tracks isAnimation_tracks
      isEncrypted_tracks isVideoWithAudioOnly_tracks track_list_with_tracks d a e v
    by simp
qed

lemma alike_skip:
  assumes "\<forall>m. t \<noteq> JObj m"
  shows "alike [t] []"
proof -
  have "assert_map t = None" using assms by (intro not_object) simp
  then show ?thesis by (simp add: alike_def)
qed

lemma alike_string_field:
  assumes "\<forall>s. v \<noteq> JStr s" and "k \<noteq> ''Duration''"
  shows "alike [JObj (m(k \<mapsto> v))] [JObj (m(k := None))]"
proof -
  have n: "assert_string v = None" using assms(1) by (intro not_string) simp
  have nv: "v \<noteq> JStr ''Video''" using assms(1) by simp
  have d: "\<And>f. duration_tracks f [JObj (m(k \<mapsto> v))] = duration_tracks f [JObj (m(k := None))]"
    using assms(2) nv by (simp add: index_upd index_del)
  have a: "\<And>g w. animation_tracks g w [JObj (m(k \<mapsto> v))] = animation_tracks g w [JObj (m(k := None))]"
    using n assms(2) by (simp add: index_upd index_del Let_def)
  have e: "encrypted_tracks [JObj (m(k \<mapsto> v))] = encrypted_tracks [JObj (m(k := None))]"
    using n by simp
  have s: "\<And>flags. video_track_step (m(k \<mapsto> v)) flags = video_track_step (m(k := None)) flags"
    unfolding video_track_step_def string_get_mistyped [OF n] ..
  have vt: "\<And>flags. video_tracks [JObj (m(k \<mapsto> v))] flags = video_tracks [JObj (m(k := None))] flags"
    by (simp add: s)
  show ?thesis
    unfolding alike_def using d a e vt by simp
qed

lemma track_duration_mistyped:
  assumes "\<forall>s. v \<noteq> JStr s"
  shows "animation_tracks g w (xs @ JObj (m(''Duration'' \<mapsto> v)) # ys) =
           animation_tracks g w (xs @ JObj (m(''Duration'' := None)) # ys)"
    and "encrypted_tracks (xs @ JObj (m(''Duration'' \<mapsto> v)) # ys) =
           encrypted_tracks (xs @ JObj (m(''Duration'' := None)) # ys)"
    and "video_tracks (xs @ JObj (m(''Duration'' \<mapsto> v)) # ys) flags =
           video_tracks (xs @ JObj (m(''Duration'' := None)) # ys) flags"
proof -
  have n: "assert_string v = None" using assms by (intro not_string) simp
  have a: "animation_tracks g w [JObj (m(''Duration'' \<mapsto> v))] =
           animation_tracks g w [JObj (m(''Duration'' := None))]"
    using n by (simp add: index_upd index_del Let_def)
  have e: "encrypted_tracks [JObj (m(''Duration'' \<mapsto> v))] =
           encrypted_tracks [JObj (m(''Duration'' := None))]"
    by simp
  have s: "\<And>flags. video_track_step (m(''Duration'' \<mapsto> v)) flags =
           video_track_step (m(''Duration'' := None)) flags"
    unfolding video_track_step_def string_get_mistyped [OF n] ..
  show "animation_tracks g w (xs @ JObj (m(''Duration'' \<mapsto> v)) # ys) =
           animation_tracks g w (xs @ JObj (m(''Duration'' := None)) # ys)"
    using animation_tracks_append [of g w xs "[JObj (m(''Duration'' \<mapsto> v))] @ ys"]
      animation_tracks_append [of g w "[JObj (m(''Duration'' \<mapsto> v))]" ys]
      animation_tracks_append [of g w xs "[JObj (m(''Duration'' := None))] @ ys"]
      animation_tracks_append [of g w "[JObj (m(''Duration'' := None))]" ys] a
    by (simp del: animation_tracks.simps)
  show "encrypted_tracks (xs @ JObj (m(''Duration'' \<mapsto> v)) # ys) =
           encrypted_tracks (xs @ JObj (m(''Duration'' := None)) # ys)"
    using encrypted_tracks_append [of xs "[JObj (m(''Duration'' \<mapsto> v))] @ ys"]
      encrypted_tracks_append [of "[JObj (m(''Duration'' \<mapsto> v))]" ys]
      encrypted_tracks_append [of xs "[JObj (m(''Duration'' := None))] @ ys"]
      encrypted_tracks_append [of "[JObj (m(''Duration'' := None))]" ys] e
    by (simp del: encrypted_tracks.simps)
  show "video_tracks (xs @ JObj (m(''Duration'' \<mapsto> v)) # ys) flags =
           video_tracks (xs @ JObj (m(''Duration'' := None)) # ys) flags"
    by (simp add: video_tracks_append s)
qed

lemma tag_number_mistyped:
  assumes "\<forall>c. v \<noteq> JNum c"
  shows "isAnimation mimeType (exif(''FrameCount'' \<mapsto> v)) media =
           isAnimation mimeType (exif(''FrameCount'' := None)) media"
    and "isAnimation mimeType (exif(''Duration'' \<mapsto> v)) media =
           isAnimation mimeType (exif(''Duration'' := None)) media"
proof -
  have n: "assert_float64 v = None" using assms by (intro not_number) simp
  show "isAnimation mimeType (exif(''FrameCount'' \<mapsto> v)) media =
           isAnimation mimeType (exif(''FrameCount'' := None)) media"
    using n by (simp add: isAnimation_tracks exif_frame_count_def exif_animation_flag_def
        exif_duration_positive_def)
  show "isAnimation mimeType (exif(''Duration'' \<mapsto> v)) media =
           isAnimation mimeType (exif(''Duration'' := None)) media"
    using n by (simp add: isAnimation_tracks exif_frame_count_def exif_animation_flag_def
        exif_duration_positive_def)
qed

lemma tag_string_mistyped:
  assumes "\<forall>s. v \<noteq> JStr s"
  shows "isAnimation mimeType (exif(''Animation'' \<mapsto> v)) media =
           isAnimation mimeType (exif(''Animation'' := None)) media"
    and "getMimeType TypeByFile filePath (exif(''MIMEType'' \<mapsto> v)) =
           getMimeType TypeByFile filePath (exif(''MIMEType'' := None))"
proof -
  have n: "assert_string v = None" using assms by (intro not_string) simp
  show "isAnimation mimeType (exif(''Animation'' \<mapsto> v)) media =
           isAnimation mimeType (exif(''Animation'' := None)) media"
    using n by (simp add: isAnimation_tracks exif_frame_count_def exif_animation_flag_def
        exif_duration_positive_def)
  show "getMimeType TypeByFile filePath (exif(''MIMEType'' \<mapsto> v)) =
           getMimeType TypeByFile filePath (exif(''MIMEType'' := None))"
    using n by (simp add: getMimeType_def Let_def)
qed

lemma null_duration_code:
  "extractDuration sprintf_v [''Duration'' \<mapsto> JNull] Map.empty = sprintf_v JNull"
  by (simp add: extractDuration_def)

lemma no_duration_code:
  "extractDuration sprintf_v Map.empty Map.empty = ''Unknown''"
  by (simp add: extractDuration_def index_def)

lemma exif_frame_count_iff:
  "exif_frame_count exif \<longleftrightarrow> (\<exists>c. exif ''FrameCount'' = Some (JNum c) \<and> c > 1)"
proof (cases "exif ''FrameCount''")
  case None
  then show ?thesis by (simp add: exif_frame_count_def)
next
  case (Some v)
  then show ?thesis by (cases v) (simp_all add: exif_frame_count_def)
qed

lemma exif_animation_flag_iff:
  "exif_animation_flag exif \<longleftrightarrow>
     (\<exists>a. exif ''Animation'' = Some (JStr a) \<and> (a = ''Yes'' \<or> a = ''True''))"
proof (cases "exif ''Animation''")
  case None
  then show ?thesis by (simp add: exif_animation_flag_def)
next
  case (Some v)
  then show ?thesis by (cases v) (simp_all add: exif_animation_flag_def)
qed

lemma exif_duration_positive_iff:
  "exif_duration_positive exif \<longleftrightarrow> (\<exists>d. exif ''Duration'' = Some (JNum d) \<and> d > 0)"
proof (cases "exif ''Duration''")
  case None
  then show ?thesis by (simp add: exif_duration_positive_def)
next
  case (Some v)
  then show ?thesis by (cases v) (simp_all add: exif_duration_positive_def)
qed

lemma length_EncodeToString: "length (EncodeToString bs) = 2 * length bs"
  by (induction bs) simp_all

lemma Copy_first_error:
  "\<forall>e. ReadError e \<notin> set pre \<Longrightarrow> snd (Copy hashes (pre @ ReadError err # post)) = Some err"
proof (induction pre arbitrary: hashes)
  case Nil
  then show ?case by simp
next
  case (Cons r pre)
  show ?case
  proof (cases r)
    case (Chunk p)
    from Cons.prems have "\<forall>e. ReadError e \<notin> set pre" by simp
    then have "snd (Copy (write_all hashes p) (pre @ ReadError err # post)) = Some err"
      by (rule Cons.IH)
    with Chunk show ?thesis by simp
  next
    case (ReadError e)
    with Cons.prems have False by auto
    then show ?thesis ..
  qed
qed

lemma computeHashes_blake256_error:
  "blake2b_New256 lib = Inl err \<Longrightarrow> computeHashes lib Open filePath = (None, Some err)"
  by (simp add: computeHashes_def Let_def)

lemma computeHashes_blake512_error:
  "blake2b_New256 lib = Inr b \<Longrightarrow> blake2b_New512 lib = Inl err \<Longrightarrow>
     computeHashes lib Open filePath = (None, Some err)"
  by (simp add: computeHashes_def Let_def)

lemma computeHashes_open_error:
  "blake2b_New256 lib = Inr b \<Longrightarrow> blake2b_New512 lib = Inr b' \<Longrightarrow> Open filePath = Inl err \<Longrightarrow>
     computeHashes lib Open filePath = (None, Some err)"
  by (simp add: computeHashes_def Let_def)

lemma computeHashes_read_error:
  assumes "blake2b_New256 lib = Inr b" and "blake2b_New512 lib = Inr b'"
    and "Open filePath = Inr (pre @ ReadError err # post)" and "\<forall>e. ReadError e \<notin> set pre"
  shows "computeHashes lib Open filePath = (None, Some err)"
proof -
  let ?hashes = "[''md5'' \<mapsto> New (md5_New lib), ''sha1'' \<mapsto> New (sha1_New lib),
      ''sha256'' \<mapsto> New (sha256_New lib), ''sha512'' \<mapsto> New (sha512_New lib),
      ''sha3-256'' \<mapsto> New (sha3_New256 lib), ''sha3-512'' \<mapsto> New (sha3_New512 lib),
      ''blake2b-256'' \<mapsto> New b, ''blake2b-512'' \<mapsto> New b']"
  obtain hs e where c: "Copy ?hashes (pre @ ReadError err # post) = (hs, e)"
    by (cases "Copy ?hashes (pre @ ReadError err # post)")
  have "e = Some err" using Copy_first_error [OF assms(4), of ?hashes err post] c by simp
  with assms(1-3) c show ?thesis by (simp add: computeHashes_def Let_def)
qed

lemma computeHashes_values:
  assumes "blake2b_New256 lib = Inr b" and "blake2b_New512 lib = Inr b'"
    and "Open filePath = Inr rs" and "\<forall>e. ReadError e \<notin> set rs"
  shows "\<exists>m. computeHashes lib Open filePath = (Some m, None) \<and> dom m = algorithms \<and>
           (\<forall>name\<in>algorithms. \<exists>f. digest_table lib b b' name = Some f \<and>
              m name = Some (EncodeToString (f (contents rs))) \<and>
              lower_hex (EncodeToString (f (contents rs))) \<and>
              length (EncodeToString (f (contents rs))) = 2 * length (f (contents rs)))"
proof -
  let ?m = "\<lambda>name. map_option (\<lambda>f. EncodeToString (f (contents rs))) (digest_table lib b b' name)"
  have r: "computeHashes lib Open filePath = (Some ?m, None)"
    using assms by (rule computeHashes_digests)
  have d: "dom (digest_table lib b b') = algorithms"
    unfolding digest_table_def by (rule dom_initial)
  have dm: "dom ?m = algorithms" using d by (simp only: dom_results)
  have "\<forall>name\<in>algorithms. \<exists>f. digest_table lib b b' name = Some f \<and>
              ?m name = Some (EncodeToString (f (contents rs))) \<and>
              lower_hex (EncodeToString (f (contents rs))) \<and>
              length (EncodeToString (f (contents rs))) = 2 * length (f (contents rs))"
  proof
    fix name assume "name \<in> algorithms"
    with d obtain f where f: "digest_table lib b b' name = Some f" by (auto simp: dom_def)
    then have "?m name = Some (EncodeToString (f (contents rs)))" by simp
    with f show "\<exists>f. digest_table lib b b' name = Some f \<and>
              ?m name = Some (EncodeToString (f (contents rs))) \<and>
              lower_hex (EncodeToString (f (contents rs))) \<and>
              length (EncodeToString (f (contents rs))) = 2 * length (f (contents rs))"
      using lower_hex_EncodeToString length_EncodeToString by blast
  qed
  with r dm show ?thesis by blast
qed

lemma computeHashes_either:
  "(\<exists>m. computeHashes lib Open filePath = (Some m, None) \<and> dom m = algorithms \<and>
        (\<forall>name\<in>algorithms. \<exists>h. m name = Some h \<and> lower_hex h)) \<or>
   ((\<exists>err. computeHashes lib Open filePath = (None, Some err)) \<and>
    ((\<exists>err. blake2b_New256 lib = Inl err) \<or> (\<exists>err. blake2b_New512 lib = Inl err) \<or>
     (\<exists>err. Open filePath = Inl err) \<or>
     (\<exists>file err. Open filePath = Inr file \<and> ReadError err \<in> set file)))"
proof (cases "(\<exists>err. blake2b_New256 lib = Inl err) \<or> (\<exists>err. blake2b_New512 lib = Inl err) \<or>
     (\<exists>err. Open filePath = Inl err) \<or>
     (\<exists>file err. Open filePath = Inr file \<and> ReadError err \<in> set file)")
  case True
  then have "\<exists>err. computeHashes lib Open filePath = (None, Some err)"
    by (rule computeHashes_failure)
  with True show ?thesis by blast
next
  case False
  then obtain b256 b512 rs where "blake2b_New256 lib = Inr b256" "blake2b_New512 lib = Inr b512"
    "Open filePath = Inr rs" "\<forall>err. ReadError err \<notin> set rs"
    by (cases "blake2b_New256 lib"; cases "blake2b_New512 lib"; cases "Open filePath") auto
  then have "\<exists>m. computeHashes lib Open filePath = (Some m, None) \<and> dom m = algorithms \<and>
        (\<forall>name\<in>algorithms. \<exists>h. m name = Some h \<and> lower_hex h)"
    by (rule computeHashes_success)
  then show ?thesis by blast
qed

lemma eq_iface_string: "eq_iface v (JStr s) = Inr (v = JStr s)"
  by (cases v) simp_all

lemma eq_iface_nil: "eq_iface v JNull = Inr (v = JNull)"
  by (cases v) simp_all

lemma duration_tracks_checked_total:
  "duration_tracks_checked sprintf_v ts = Inr (duration_tracks sprintf_v ts)"
proof (induction ts)
  case Nil
  then show ?case by simp
next
  case (Cons t ts)
  show ?case
  proof (cases "assert_map t")
    case None
    with Cons.IH show ?thesis by simp
  next
    case (Some m)
    with Cons.IH show ?thesis
      by (cases "m ''Duration''") (simp_all add: eq_iface_string)
  qed
qed

lemma extractDuration_checked_total:
  "extractDuration_checked sprintf_v exif media = Inr (extractDuration sprintf_v exif media)"
proof (cases "exif ''Duration''")
  case (Some v)
  then show ?thesis by (simp add: extractDuration_checked_def extractDuration_def)
next
  case None
  show ?thesis
  proof (cases "assert_map (index media ''media'')")
    case n: None
    with None show ?thesis
      by (simp add: extractDuration_checked_def extractDuration_def eq_iface_nil)
  next
    case (Some mediaMap)
    show ?thesis
    proof (cases "assert_slice (index mediaMap ''track'')")
      case n: None
      with None Some show ?thesis
        by (simp add: extractDuration_checked_def extractDuration_def eq_iface_nil)
    next
      case t: (Some tracks)
      show ?thesis
      proof (cases "duration_tracks sprintf_v tracks")
        case d: None
        with None Some t show ?thesis
          by (simp add: extractDuration_checked_def extractDuration_def eq_iface_nil
              duration_tracks_checked_total)
      next
        case d: (Some s)
        with None Some t show ?thesis
          by (simp add: extractDuration_checked_def extractDuration_def eq_iface_nil
              duration_tracks_checked_total)
      qed
    qed
  qed
qed

lemma classify_total:
  "classify sprintf_v TypeByFile filePath exif media =
      Inr \<lparr>Duration = extractDuration sprintf_v exif media,
           MediaIsEncrypted = isEncrypted media,
           MimeType = getMimeType TypeByFile filePath exif,
           MediaIsAnimation = isAnimation (getMimeType TypeByFile filePath exif) exif media,
           MediaVideoWithAudioOnly =
             isVideoWithAudioOnly (getMimeType TypeByFile filePath exif) exif media\<rparr>"
  by (simp add: classify_def extractDuration_checked_total Let_def)

lemma tag_unread_isAnimation:
  assumes "k \<noteq> ''FrameCount'' \<and> k \<noteq> ''Animation'' \<and> k \<noteq> ''Duration''"
  shows "isAnimation mimeType (exif(k \<mapsto> v)) media = isAnimation mimeType (exif(k := None)) media"
proof -
  have "''FrameCount'' \<noteq> k" "''Animation'' \<noteq> k" "''Duration'' \<noteq> k"
    using assms by (simp_all add: eq_commute [of _ k])
  then show ?thesis
    by (simp add: isAnimation_tracks exif_frame_count_def exif_animation_flag_def
        exif_duration_positive_def)
qed

lemma tag_unread_getMimeType:
  assumes "k \<noteq> ''MIMEType''"
  shows "getMimeType TypeByFile filePath (exif(k \<mapsto> v)) =
           getMimeType TypeByFile filePath (exif(k := None))"
proof -
  have "''MIMEType'' \<noteq> k" using assms by (simp add: eq_commute [of _ k])
  then show ?thesis by (simp add: getMimeType_def Let_def)
qed

lemma tag_unread_extractDuration:
  assumes "k \<noteq> ''Duration''"
  shows "extractDuration sprintf_v (exif(k \<mapsto> v)) media =
           extractDuration sprintf_v (exif(k := None)) media"
proof -
  have "''Duration'' \<noteq> k" using assms by (simp add: eq_commute [of _ k])
  then show ?thesis by (simp add: extractDuration_tracks)
qed

lemma tag_unread_isVideoWithAudioOnly:
  assumes "k \<noteq> ''VideoFrameRate'' \<and> k \<noteq> ''FrameRate''"
  shows "isVideoWithAudioOnly mimeType (exif(k \<mapsto> v)) media =
           isVideoWithAudioOnly mimeType (exif(k := None)) media"
proof -
  have "''VideoFrameRate'' \<noteq> k" "''FrameRate'' \<noteq> k"
    using assms by (simp_all add: eq_commute [of _ k])
  then show ?thesis
    unfolding isVideoWithAudioOnly_tracks exif_has_key_two by simp
qed

lemma tag_duration_any_value:
  "extractDuration sprintf_v (exif(''Duration'' \<mapsto> v)) media = sprintf_v v"
  by (simp add: extractDuration_def)

lemma duration_tracks_none:
  assumes "\<forall>t\<in>set xs. \<not> video_with_duration t"
  shows "duration_tracks sprintf_v xs = None"
proof -
  have "find video_with_duration xs = None" using assms by (simp add: find_None_iff)
  then show ?thesis by (simp add: duration_tracks_find)
qed

lemma track_duration_any_value:
  assumes "exif ''Duration'' = None \<and> (\<forall>t\<in>set xs. \<not> video_with_duration t) \<and>
    track ''@type'' = Some (JStr ''Video'')"
  shows "extractDuration sprintf_v exif
          (with_tracks media mediaRoot (xs @ JObj (track(''Duration'' \<mapsto> v)) # ys)) =
        sprintf_v v"
proof -
  have n: "duration_tracks sprintf_v xs = None"
    using assms by (intro duration_tracks_none) simp
  have h: "duration_tracks sprintf_v (JObj (track(''Duration'' \<mapsto> v)) # ys) = Some (sprintf_v v)"
    using assms by (simp add: index_def)
  have "duration_tracks sprintf_v (xs @ JObj (track(''Duration'' \<mapsto> v)) # ys) = Some (sprintf_v v)"
    unfolding duration_tracks_append n h by simp
  with assms show ?thesis by (simp add: extractDuration_tracks)
qed

lemma frame_rate_key_any_value:
  assumes "k = ''VideoFrameRate'' \<or> k = ''FrameRate''"
  shows "\<not> isVideoWithAudioOnly mimeType (exif(k \<mapsto> v)) media"
proof -
  have "(exif(k \<mapsto> v)) ''VideoFrameRate'' \<noteq> None \<or> (exif(k \<mapsto> v)) ''FrameRate'' \<noteq> None"
    using assms by (rule disjE) simp_all
  then show ?thesis
    unfolding isVideoWithAudioOnly_tracks exif_has_key_two by simp
qed

lemma null_frame_rate_code:
  "\<not> isVideoWithAudioOnly ''video/mp4'' [''FrameRate'' \<mapsto> JNull] Map.empty"
  unfolding isVideoWithAudioOnly_tracks exif_has_key_two by simp

lemma no_frame_rate_code:
  "isVideoWithAudioOnly ''video/mp4'' Map.empty Map.empty"
  unfolding isVideoWithAudioOnly_tracks exif_has_key_two
  by (simp add: HasPrefix_def track_list_def)

lemma mistyped_core:
  "((\<forall>c. v \<noteq> JNum c) \<longrightarrow>
      isAnimation mimeType (exif(''FrameCount'' \<mapsto> v)) media =
        isAnimation mimeType (exif(''FrameCount'' := None)) media \<and>
      isAnimation mimeType (exif(''Duration'' \<mapsto> v)) media =
        isAnimation mimeType (exif(''Duration'' := None)) media) \<and>
   ((\<forall>s. v \<noteq> JStr s) \<longrightarrow>
      isAnimation mimeType (exif(''Animation'' \<mapsto> v)) media =
        isAnimation mimeType (exif(''Animation'' := None)) media \<and>
      getMimeType TypeByFile filePath (exif(''MIMEType'' \<mapsto> v)) =
        getMimeType TypeByFile filePath (exif(''MIMEType'' := None))) \<and>
   ((\<forall>r. v \<noteq> JObj r) \<longrightarrow>
      same_classification (media(''media'' \<mapsto> v)) (media(''media'' := None))) \<and>
   ((\<forall>ts. v \<noteq> JArr ts) \<longrightarrow>
      same_classification (media(''media'' \<mapsto> JObj (mediaRoot(''track'' \<mapsto> v))))
        (media(''media'' \<mapsto> JObj (mediaRoot(''track'' := None))))) \<and>
   ((\<forall>m. v \<noteq> JObj m) \<longrightarrow>
      same_classification (with_tracks media mediaRoot (xs @ v # ys))
        (with_tracks media mediaRoot (xs @ ys))) \<and>
   ((\<forall>s. v \<noteq> JStr s) \<and> k \<noteq> ''Duration'' \<longrightarrow>
      same_classification (with_tracks media mediaRoot (xs @ JObj (track(k \<mapsto> v)) # ys))
        (with_tracks media mediaRoot (xs @ JObj (track(k := None)) # ys))) \<and>
   ((\<forall>s. v \<noteq> JStr s) \<longrightarrow>
      isAnimation mimeType exif
          (with_tracks media mediaRoot (xs @ JObj (track(''Duration'' \<mapsto> v)) # ys)) =
        isAnimation mimeType exif
          (with_tracks media mediaRoot (xs @ JObj (track(''Duration'' := None)) # ys)) \<and>
      isEncrypted (with_tracks media mediaRoot (xs @ JObj (track(''Duration'' \<mapsto> v)) # ys)) =
        isEncrypted (with_tracks media mediaRoot (xs @ JObj (track(''Duration'' := None)) # ys)) \<and>
      isVideoWithAudioOnly mimeType exif
          (with_tracks media mediaRoot (xs @ JObj (track(''Duration'' \<mapsto> v)) # ys)) =
        isVideoWithAudioOnly mimeType exif
          (with_tracks media mediaRoot (xs @ JObj (track(''Duration'' := None)) # ys)))"
proof (intro conjI impI)
  assume "\<forall>c. v \<noteq> JNum c"
  then show "isAnimation mimeType (exif(''FrameCount'' \<mapsto> v)) media =
        isAnimation mimeType (exif(''FrameCount'' := None)) media"
    and "isAnimation mimeType (exif(''Duration'' \<mapsto> v)) media =
        isAnimation mimeType (exif(''Duration'' := None)) media"
    by (rule tag_number_mistyped)+
next
  assume "\<forall>s. v \<noteq> JStr s"
  then show "isAnimation mimeType (exif(''Animation'' \<mapsto> v)) media =
        isAnimation mimeType (exif(''Animation'' := None)) media"
    and "getMimeType TypeByFile filePath (exif(''MIMEType'' \<mapsto> v)) =
        getMimeType TypeByFile filePath (exif(''MIMEType'' := None))"
    by (rule tag_string_mistyped)+
next
  assume "\<forall>r. v \<noteq> JObj r"
  then have "track_list (media(''media'' \<mapsto> v)) = track_list (media(''media'' := None))"
    by (rule track_list_root_mistyped)
  then show "same_classification (media(''media'' \<mapsto> v)) (media(''media'' := None))"
    by (rule same_classification_tracks)
next
  assume "\<forall>ts. v \<noteq> JArr ts"
  then have "track_list (media(''media'' \<mapsto> JObj (mediaRoot(''track'' \<mapsto> v)))) =
      track_list (media(''media'' \<mapsto> JObj (mediaRoot(''track'' := None))))"
    by (rule track_list_track_mistyped)
  then show "same_classification (media(''media'' \<mapsto> JObj (mediaRoot(''track'' \<mapsto> v))))
        (media(''media'' \<mapsto> JObj (mediaRoot(''track'' := None))))"
    by (rule same_classification_tracks)
next
  assume "\<forall>m. v \<noteq> JObj m"
  then have "alike [v] []" by (rule alike_skip)
  then have "alike (xs @ [v] @ ys) (xs @ [] @ ys)" by (rule alike_middle)
  then have "alike (xs @ v # ys) (xs @ ys)" by simp
  then show "same_classification (with_tracks media mediaRoot (xs @ v # ys))
        (with_tracks media mediaRoot (xs @ ys))"
    by (rule alike_same_classification)
next
  assume a: "(\<forall>s. v \<noteq> JStr s) \<and> k \<noteq> ''Duration''"
  then have "alike [JObj (track(k \<mapsto> v))] [JObj (track(k := None))]"
    by (intro alike_string_field) simp_all
  then have "alike (xs @ [JObj (track(k \<mapsto> v))] @ ys) (xs @ [JObj (track(k := None))] @ ys)"
    by (rule alike_middle)
  then have "alike (xs @ JObj (track(k \<mapsto> v)) # ys) (xs @ JObj (track(k := None)) # ys)"
    by simp
  then show "same_classification (with_tracks media mediaRoot (xs @ JObj (track(k \<mapsto> v)) # ys))
        (with_tracks media mediaRoot (xs @ JObj (track(k := None)) # ys))"
    by (rule alike_same_classification)
next
  assume s: "\<forall>s. v \<noteq> JStr s"
  show "isAnimation mimeType exif
          (with_tracks media mediaRoot (xs @ JObj (track(''Duration'' \<mapsto> v)) # ys)) =
        isAnimation mimeType exif
          (with_tracks media mediaRoot (xs @ JObj (track(''Duration'' := None)) # ys))"
    unfolding isAnimation_tracks track_list_with_tracks track_duration_mistyped(1) [OF s] ..
  show "isEncrypted (with_tracks media mediaRoot (xs @ JObj (track(''Duration'' \<mapsto> v)) # ys)) =
        isEncrypted (with_tracks media mediaRoot (xs @ JObj (track(''Duration'' := None)) # ys))"
    unfolding isEncrypted_tracks track_list_with_tracks track_duration_mistyped(2) [OF s] ..
  show "isVideoWithAudioOnly mimeType exif
          (with_tracks media mediaRoot (xs @ JObj (track(''Duration'' \<mapsto> v)) # ys)) =
        isVideoWithAudioOnly mimeType exif
          (with_tracks media mediaRoot (xs @ JObj (track(''Duration'' := None)) # ys))"
    unfolding isVideoWithAudioOnly_tracks track_list_with_tracks track_duration_mistyped(3) [OF s] ..
qed

lemma mistyped_extra:
  "(classify sprintf_v TypeByFile filePath exif media =
      Inr \<lparr>Duration = extractDuration sprintf_v exif media,
           MediaIsEncrypted = isEncrypted media,
           MimeType = getMimeType TypeByFile filePath exif,
           MediaIsAnimation = isAnimation (getMimeType TypeByFile filePath exif) exif media,
           MediaVideoWithAudioOnly =
             isVideoWithAudioOnly (getMimeType TypeByFile filePath exif) exif media\<rparr>) \<and>
   extractDuration_checked sprintf_v exif media = Inr (extractDuration sprintf_v exif media) \<and>
   (k \<noteq> ''FrameCount'' \<and> k \<noteq> ''Animation'' \<and> k \<noteq> ''Duration'' \<longrightarrow>
      isAnimation mimeType (exif(k \<mapsto> v)) media = isAnimation mimeType (exif(k := None)) media) \<and>
   (k \<noteq> ''MIMEType'' \<longrightarrow>
      getMimeType TypeByFile filePath (exif(k \<mapsto> v)) =
        getMimeType TypeByFile filePath (exif(k := None))) \<and>
   (k \<noteq> ''Duration'' \<longrightarrow>
      extractDuration sprintf_v (exif(k \<mapsto> v)) media =
        extractDuration sprintf_v (exif(k := None)) media) \<and>
   (k \<noteq> ''VideoFrameRate'' \<and> k \<noteq> ''FrameRate'' \<longrightarrow>
      isVideoWithAudioOnly mimeType (exif(k \<mapsto> v)) media =
        isVideoWithAudioOnly mimeType (exif(k := None)) media) \<and>
   extractDuration sprintf_v (exif(''Duration'' \<mapsto> v)) media = sprintf_v v \<and>
   (exif ''Duration'' = None \<and> (\<forall>t\<in>set xs. \<not> video_with_duration t) \<and>
    track ''@type'' = Some (JStr ''Video'') \<longrightarrow>
      extractDuration sprintf_v exif
          (with_tracks media mediaRoot (xs @ JObj (track(''Duration'' \<mapsto> v)) # ys)) =
        sprintf_v v) \<and>
   (k = ''VideoFrameRate'' \<or> k = ''FrameRate'' \<longrightarrow>
      \<not> isVideoWithAudioOnly mimeType (exif(k \<mapsto> v)) media)"
proof (intro conjI)
  show "classify sprintf_v TypeByFile filePath exif media =
      Inr \<lparr>Duration = extractDuration sprintf_v exif media,
           MediaIsEncrypted = isEncrypted media,
           MimeType = getMimeType TypeByFile filePath exif,
           MediaIsAnimation = isAnimation (getMimeType TypeByFile filePath exif) exif media,
           MediaVideoWithAudioOnly =
             isVideoWithAudioOnly (getMimeType TypeByFile filePath exif) exif media\<rparr>"
    by (rule classify_total)
  show "extractDuration_checked sprintf_v exif media = Inr (extractDuration sprintf_v exif media)"
    by (rule extractDuration_checked_total)
  show "k \<noteq> ''FrameCount'' \<and> k \<noteq> ''Animation'' \<and> k \<noteq> ''Duration'' \<longrightarrow>
      isAnimation mimeType (exif(k \<mapsto> v)) media = isAnimation mimeType (exif(k := None)) media"
    by (rule impI) (rule tag_unread_isAnimation)
  show "k \<noteq> ''MIMEType'' \<longrightarrow>
      getMimeType TypeByFile filePath (exif(k \<mapsto> v)) =
        getMimeType TypeByFile filePath (exif(k := None))"
    by (rule impI) (rule tag_unread_getMimeType)
  show "k \<noteq> ''Duration'' \<longrightarrow>
      extractDuration sprintf_v (exif(k \<mapsto> v)) media =
        extractDuration sprintf_v (exif(k := None)) media"
    by (rule impI) (rule tag_unread_extractDuration)
  show "k \<noteq> ''VideoFrameRate'' \<and> k \<noteq> ''FrameRate'' \<longrightarrow>
      isVideoWithAudioOnly mimeType (exif(k \<mapsto> v)) media =
        isVideoWithAudioOnly mimeType (exif(k := None)) media"
    by (rule impI) (rule tag_unread_isVideoWithAudioOnly)
  show "extractDuration sprintf_v (exif(''Duration'' \<mapsto> v)) media = sprintf_v v"
    by (rule tag_duration_any_value)
  show "exif ''Duration'' = None \<and> (\<forall>t\<in>set xs. \<not> video_with_duration t) \<and>
    track ''@type'' = Some (JStr ''Video'') \<longrightarrow>
      extractDuration sprintf_v exif
          (with_tracks media mediaRoot (xs @ JObj (track(''Duration'' \<mapsto> v)) # ys)) =
        sprintf_v v"
    by (rule impI) (rule track_duration_any_value)
  show "k = ''VideoFrameRate'' \<or> k = ''FrameRate'' \<longrightarrow>
      \<not> isVideoWithAudioOnly mimeType (exif(k \<mapsto> v)) media"
    by (rule impI) (rule frame_rate_key_any_value)
qed

section \<open>Animation: the tag document's duration\<close>

text \<open>
  Claim C1, as the code has it: a numeric Duration field greater than 0 in the tag
  document makes \<^verbatim>\<open>isAnimation\<close> return true for every MIME type. The check
  of the tag document's duration does not look at the MIME type; only the scan of the
  tracks does.
\<close>

theorem isAnimation_duration_any_mime:
  "exif ''Duration'' = Some (JNum d) \<Longrightarrow> d > 0 \<Longrightarrow> isAnimation mimeType exif media"
  by (simp add: isAnimation_tracks exif_duration_positive_def)

text \<open>The theorem at a PNG file with a frame duration of 0.04.\<close>

theorem isAnimation_duration_any_mime_witness:
  "isAnimation ''image/png'' [''Duration'' \<mapsto> JNum 0.04] [''media'' \<mapsto> JObj Map.empty]"
proof -
  have "[''Duration'' \<mapsto> JNum 0.04] ''Duration'' = Some (JNum 0.04)" by simp
  moreover have "(0.04 :: real) > 0" by simp
  ultimately show ?thesis by (rule isAnimation_duration_any_mime)
qed

text \<open>
  Claim C1 as the specification states it, with the duration rule applying to
  \<^verbatim>\<open>image/gif\<close> and \<^verbatim>\<open>image/webp\<close> only, fails: for \<^verbatim>\<open>video/mp4\<close>, a tag
  document \<^verbatim>\<open>{"Duration": 5}\<close> and an empty track document, none of the other
  rules matches and the result is true.
\<close>

theorem isAnimation_duration_gate_counterexample:
  "isAnimation ''video/mp4'' [''Duration'' \<mapsto> JNum 5] Map.empty \<and>
   \<not> (\<forall>mimeType exif media d.
        exif ''Duration'' = Some (JNum d) \<and> d > 0 \<and>
        mimeType \<noteq> ''image/gif'' \<and> mimeType \<noteq> ''image/webp'' \<and>
        \<not> (\<exists>c. exif ''FrameCount'' = Some (JNum c) \<and> c > 1) \<and>
        \<not> (\<exists>a. exif ''Animation'' = Some (JStr a) \<and> (a = ''Yes'' \<or> a = ''True''))
        \<longrightarrow> \<not> isAnimation mimeType exif media)"
proof
  show a: "isAnimation ''video/mp4'' [''Duration'' \<mapsto> JNum 5] Map.empty"
    by (simp add: isAnimation_def exif_frame_count_def exif_animation_flag_def
        exif_duration_positive_def)
  show "\<not> (\<forall>mimeType exif media d.
        exif ''Duration'' = Some (JNum d) \<and> d > 0 \<and>
        mimeType \<noteq> ''image/gif'' \<and> mimeType \<noteq> ''image/webp'' \<and>
        \<not> (\<exists>c. exif ''FrameCount'' = Some (JNum c) \<and> c > 1) \<and>
        \<not> (\<exists>a. exif ''Animation'' = Some (JStr a) \<and> (a = ''Yes'' \<or> a = ''True''))
        \<longrightarrow> \<not> isAnimation mimeType exif media)"
  proof
    assume h: "\<forall>mimeType exif media d.
        exif ''Duration'' = Some (JNum d) \<and> d > 0 \<and>
        mimeType \<noteq> ''image/gif'' \<and> mimeType \<noteq> ''image/webp'' \<and>
        \<not> (\<exists>c. exif ''FrameCount'' = Some (JNum c) \<and> c > 1) \<and>
        \<not> (\<exists>a. exif ''Animation'' = Some (JStr a) \<and> (a = ''Yes'' \<or> a = ''True''))
        \<longrightarrow> \<not> isAnimation mimeType exif media"
    have "\<not> isAnimation ''video/mp4'' [''Duration'' \<mapsto> JNum 5] Map.empty"
      using h [rule_format, of "[''Duration'' \<mapsto> JNum 5]" 5 "''video/mp4''" Map.empty]
      by simp
    with a show False by simp
  qed
qed

section \<open>MIME resolution precedence\<close>

text \<open>
  Claim C2: the resolved MIME type is the tag document's MIMEType field when that is
  a string, not empty and not \<^verbatim>\<open>application/unknown\<close>; otherwise it is what the
  sniffer returns; and when the sniffer fails or returns the empty string it is the
  string \<^verbatim>\<open>unknown\<close>. In particular \<^verbatim>\<open>{"MIMEType": "image/png"}\<close> resolves to
  \<^verbatim>\<open>image/png\<close> whatever the sniffer says, and
  \<^verbatim>\<open>{"MIMEType": "application/unknown"}\<close> with a sniffer that says
  \<^verbatim>\<open>image/gif\<close> resolves to \<^verbatim>\<open>image/gif\<close>.
\<close>

theorem getMimeType_precedence:
  "(\<forall>s. exif ''MIMEType'' = Some (JStr s) \<and> s \<noteq> '''' \<and> s \<noteq> ''application/unknown''
        \<longrightarrow> getMimeType TypeByFile filePath exif = s) \<and>
   (\<not> (\<exists>s. exif ''MIMEType'' = Some (JStr s) \<and> s \<noteq> '''' \<and> s \<noteq> ''application/unknown'') \<longrightarrow>
      (\<forall>m. TypeByFile filePath = Inr m \<and> m \<noteq> '''' \<longrightarrow> getMimeType TypeByFile filePath exif = m) \<and>
      ((\<exists>e. TypeByFile filePath = Inl e) \<or> TypeByFile filePath = Inr ''''
         \<longrightarrow> getMimeType TypeByFile filePath exif = ''unknown'')) \<and>
   getMimeType TypeByFile filePath [''MIMEType'' \<mapsto> JStr ''image/png''] = ''image/png'' \<and>
   (TypeByFile filePath = Inr ''image/gif'' \<longrightarrow>
      getMimeType TypeByFile filePath [''MIMEType'' \<mapsto> JStr ''application/unknown''] = ''image/gif'')"
  by (auto simp: getMimeType_def Let_def split: option.splits sum.splits)

text \<open>The theorem on five pairs of a tag document and a sniffer.\<close>

theorem getMimeType_precedence_witness:
  "getMimeType (\<lambda>p. Inr ''text/plain'') ''a.bin'' [''MIMEType'' \<mapsto> JStr ''video/mp4''] = ''video/mp4'' \<and>
   getMimeType (\<lambda>p. Inr ''text/plain'') ''a.bin'' [''MIMEType'' \<mapsto> JStr ''''] = ''text/plain'' \<and>
   getMimeType (\<lambda>p. Inl ''magic failed'') ''a.bin'' [''MIMEType'' \<mapsto> JNum 3] = ''unknown'' \<and>
   getMimeType (\<lambda>p. Inr '''') ''a.bin'' Map.empty = ''unknown'' \<and>
   getMimeType (\<lambda>p. Inr ''image/gif'') ''a.bin'' [''MIMEType'' \<mapsto> JStr ''application/unknown'']
     = ''image/gif''"
  using getMimeType_precedence [of "[''MIMEType'' \<mapsto> JStr ''video/mp4'']" "\<lambda>p. Inr ''text/plain''" "''a.bin''"]
    getMimeType_precedence [of "[''MIMEType'' \<mapsto> JStr '''']" "\<lambda>p. Inr ''text/plain''" "''a.bin''"]
    getMimeType_precedence [of "[''MIMEType'' \<mapsto> JNum 3]" "\<lambda>p. Inl ''magic failed''" "''a.bin''"]
    getMimeType_precedence [of "Map.empty" "\<lambda>p. Inr ''''" "''a.bin''"]
    getMimeType_precedence [of "Map.empty" "\<lambda>p. Inr ''image/gif''" "''a.bin''"]
  by simp

section \<open>Encryption detection\<close>

text \<open>
  Claim C5: \<^verbatim>\<open>isEncrypted\<close> returns true if and only if some track of the track
  list is an object with an Encryption field that is a string equal to
  \<^verbatim>\<open>Encrypted\<close> when case is ignored; when the track list is absent or
  malformed it returns false.
\<close>

theorem isEncrypted_iff:
  "(isEncrypted media \<longleftrightarrow>
      (\<exists>t\<in>set (track_list media). \<exists>m s. t = JObj m \<and> m ''Encryption'' = Some (JStr s) \<and>
         EqualFold s ''Encrypted'')) \<and>
   (\<not> (\<exists>mediaRoot ts. media ''media'' = Some (JObj mediaRoot) \<and>
          mediaRoot ''track'' = Some (JArr ts)) \<longrightarrow> \<not> isEncrypted media)"
proof
  show "isEncrypted media \<longleftrightarrow>
      (\<exists>t\<in>set (track_list media). \<exists>m s. t = JObj m \<and> m ''Encryption'' = Some (JStr s) \<and>
         EqualFold s ''Encrypted'')"
    by (simp only: isEncrypted_tracks encrypted_tracks_iff)
  show "\<not> (\<exists>mediaRoot ts. media ''media'' = Some (JObj mediaRoot) \<and>
          mediaRoot ''track'' = Some (JArr ts)) \<longrightarrow> \<not> isEncrypted media"
    using track_list_absent [of media] by (auto simp: isEncrypted_tracks)
qed

text \<open>
  The theorem on a track marked \<^verbatim>\<open>encrypted\<close> in lower case, on a track whose
  Encryption field is a number, and on a document whose media root is a string.
\<close>

theorem isEncrypted_iff_witness:
  "isEncrypted (with_tracks Map.empty Map.empty
      [JObj [''@type'' \<mapsto> JStr ''General''], JObj [''Encryption'' \<mapsto> JStr ''encrypted'']]) \<and>
   \<not> isEncrypted (with_tracks Map.empty Map.empty
      [JObj [''@type'' \<mapsto> JStr ''General''], JObj [''Encryption'' \<mapsto> JNum 1]]) \<and>
   \<not> isEncrypted [''media'' \<mapsto> JStr ''none'']"
proof -
  have e: "EqualFold ''encrypted'' ''Encrypted''"
    by (simp add: EqualFold_def to_lower_ascii_def)
  have a: "isEncrypted (with_tracks Map.empty Map.empty
      [JObj [''@type'' \<mapsto> JStr ''General''], JObj [''Encryption'' \<mapsto> JStr ''encrypted'']])"
    using isEncrypted_iff [of "with_tracks Map.empty Map.empty
      [JObj [''@type'' \<mapsto> JStr ''General''], JObj [''Encryption'' \<mapsto> JStr ''encrypted'']]"] e
    by simp
  have b: "\<not> isEncrypted (with_tracks Map.empty Map.empty
      [JObj [''@type'' \<mapsto> JStr ''General''], JObj [''Encryption'' \<mapsto> JNum 1]])"
    using isEncrypted_iff [of "with_tracks Map.empty Map.empty
      [JObj [''@type'' \<mapsto> JStr ''General''], JObj [''Encryption'' \<mapsto> JNum 1]]"]
    by simp
  have c: "\<not> isEncrypted [''media'' \<mapsto> JStr ''none'']"
    using isEncrypted_iff [of "[''media'' \<mapsto> JStr ''none'']", THEN conjunct2]
    by simp
  from a b c show ?thesis by simp
qed

section \<open>Audio-only video detection: the three signals\<close>

text \<open>
  Claim C3: for a MIME type that does not start with \<^verbatim>\<open>video/\<close>,
  \<^verbatim>\<open>isVideoWithAudioOnly\<close> returns false whatever the documents hold. For one
  that does, it returns true exactly when three signals are all absent: no track is
  an object whose \<^verbatim>\<open>@type\<close> is the string \<^verbatim>\<open>Video\<close>; no track whose
  \<^verbatim>\<open>@type\<close> is \<^verbatim>\<open>General\<close> has a string VideoCount that \<^verbatim>\<open>Atoi\<close> parses to
  an integer greater than 0; and the tag document has neither the key VideoFrameRate
  nor the key FrameRate.
\<close>

theorem isVideoWithAudioOnly_iff:
  "(\<not> HasPrefix mimeType ''video/'' \<longrightarrow> \<not> isVideoWithAudioOnly mimeType exif media) \<and>
   (HasPrefix mimeType ''video/'' \<longrightarrow>
      (isVideoWithAudioOnly mimeType exif media \<longleftrightarrow>
         \<not> (\<exists>t\<in>set (track_list media). \<exists>m. t = JObj m \<and> m ''@type'' = Some (JStr ''Video'')) \<and>
         \<not> (\<exists>t\<in>set (track_list media). \<exists>m vc n. t = JObj m \<and>
               m ''@type'' = Some (JStr ''General'') \<and>
               m ''VideoCount'' = Some (JStr vc) \<and> Atoi vc = Some n \<and> n > 0) \<and>
         exif ''VideoFrameRate'' = None \<and> exif ''FrameRate'' = None))"
  unfolding isVideoWithAudioOnly_tracks video_tracks_fst video_tracks_snd exif_has_key_two
  by simp

text \<open>
  The theorem on the specification's examples: an MP4 with a General track only, the
  same with a Video track added, one whose General track counts one video stream, and
  an MP3.
\<close>

theorem isVideoWithAudioOnly_iff_witness:
  "isVideoWithAudioOnly ''video/mp4'' Map.empty
     (with_tracks Map.empty Map.empty [JObj [''@type'' \<mapsto> JStr ''General'']]) \<and>
   \<not> isVideoWithAudioOnly ''video/mp4'' Map.empty
     (with_tracks Map.empty Map.empty
        [JObj [''@type'' \<mapsto> JStr ''General''], JObj [''@type'' \<mapsto> JStr ''Video'']]) \<and>
   \<not> isVideoWithAudioOnly ''video/mp4'' Map.empty
     (with_tracks Map.empty Map.empty
        [JObj [''@type'' \<mapsto> JStr ''General'', ''VideoCount'' \<mapsto> JStr ''1'']]) \<and>
   \<not> isVideoWithAudioOnly ''audio/mp3'' Map.empty
     (with_tracks Map.empty Map.empty [JObj [''@type'' \<mapsto> JStr ''General'']])"
proof -
  have p: "HasPrefix ''video/mp4'' ''video/''" "\<not> HasPrefix ''audio/mp3'' ''video/''"
    by (simp_all add: HasPrefix_def)
  have n: "Atoi ''1'' = Some 1" by (simp add: Atoi_def)
  have a: "isVideoWithAudioOnly ''video/mp4'' Map.empty
     (with_tracks Map.empty Map.empty [JObj [''@type'' \<mapsto> JStr ''General'']])"
    using isVideoWithAudioOnly_iff [of "''video/mp4''" Map.empty
        "with_tracks Map.empty Map.empty [JObj [''@type'' \<mapsto> JStr ''General'']]"] p
    by simp
  have b: "\<not> isVideoWithAudioOnly ''video/mp4'' Map.empty
     (with_tracks Map.empty Map.empty
        [JObj [''@type'' \<mapsto> JStr ''General''], JObj [''@type'' \<mapsto> JStr ''Video'']])"
    using isVideoWithAudioOnly_iff [of "''video/mp4''" Map.empty
        "with_tracks Map.empty Map.empty
          [JObj [''@type'' \<mapsto> JStr ''General''], JObj [''@type'' \<mapsto> JStr ''Video'']]"] p
    by simp
  have c: "\<not> isVideoWithAudioOnly ''video/mp4'' Map.empty
     (with_tracks Map.empty Map.empty
        [JObj [''@type'' \<mapsto> JStr ''General'', ''VideoCount'' \<mapsto> JStr ''1'']])"
    using isVideoWithAudioOnly_iff [of "''video/mp4''" Map.empty
        "with_tracks Map.empty Map.empty
          [JObj [''@type'' \<mapsto> JStr ''General'', ''VideoCount'' \<mapsto> JStr ''1'']]"] p n
    by simp
  have d: "\<not> isVideoWithAudioOnly ''audio/mp3'' Map.empty
     (with_tracks Map.empty Map.empty [JObj [''@type'' \<mapsto> JStr ''General'']])"
    using isVideoWithAudioOnly_iff [of "''audio/mp3''" Map.empty
        "with_tracks Map.empty Map.empty [JObj [''@type'' \<mapsto> JStr ''General'']]", THEN conjunct1] p
    by simp
  from a b c d show ?thesis by simp
qed

section \<open>Animation: the frame count and the tracks\<close>

text \<open>
  Claim C4: a tag document whose FrameCount field is a number greater than 1 makes
  \<^verbatim>\<open>isAnimation\<close> true for every MIME type. With an empty tag document,
  \<^verbatim>\<open>isAnimation\<close> is true exactly when some track is an object whose Format is
  a string that contains \<^verbatim>\<open>GIF\<close> while the MIME type is \<^verbatim>\<open>image/gif\<close>, or
  contains \<^verbatim>\<open>WebP\<close> while the MIME type is \<^verbatim>\<open>image/webp\<close>, and whose
  FrameCount is a string other than \<^verbatim>\<open>1\<close> or whose Duration is a string other
  than \<^verbatim>\<open>0\<close>. And for every tag document, \<^verbatim>\<open>isAnimation\<close> is true exactly
  when one of the three checks of the tag document holds or some track gives that
  evidence: the tracks are looked at under the MIME type of their format only,
  whatever the tag document holds.
\<close>

theorem isAnimation_frame_count_and_tracks:
  "(\<forall>c. exif ''FrameCount'' = Some (JNum c) \<and> c > 1 \<longrightarrow> isAnimation mimeType exif media) \<and>
   (isAnimation mimeType Map.empty media \<longleftrightarrow>
      (\<exists>t\<in>set (track_list media). \<exists>m. t = JObj m \<and>
         (\<exists>f. m ''Format'' = Some (JStr f) \<and>
            ((mimeType = ''image/gif'' \<and> Contains f ''GIF'') \<or>
             (mimeType = ''image/webp'' \<and> Contains f ''WebP''))) \<and>
         ((\<exists>fc. m ''FrameCount'' = Some (JStr fc) \<and> fc \<noteq> ''1'') \<or>
          (\<exists>dur. m ''Duration'' = Some (JStr dur) \<and> dur \<noteq> ''0'')))) \<and>
   (isAnimation mimeType exif media \<longleftrightarrow>
      (\<exists>c. exif ''FrameCount'' = Some (JNum c) \<and> c > 1) \<or>
      (\<exists>a. exif ''Animation'' = Some (JStr a) \<and> (a = ''Yes'' \<or> a = ''True'')) \<or>
      (\<exists>d. exif ''Duration'' = Some (JNum d) \<and> d > 0) \<or>
      (\<exists>t\<in>set (track_list media). \<exists>m. t = JObj m \<and>
         (\<exists>f. m ''Format'' = Some (JStr f) \<and>
            ((mimeType = ''image/gif'' \<and> Contains f ''GIF'') \<or>
             (mimeType = ''image/webp'' \<and> Contains f ''WebP''))) \<and>
         ((\<exists>fc. m ''FrameCount'' = Some (JStr fc) \<and> fc \<noteq> ''1'') \<or>
          (\<exists>dur. m ''Duration'' = Some (JStr dur) \<and> dur \<noteq> ''0''))))"
proof (intro conjI)
  show "\<forall>c. exif ''FrameCount'' = Some (JNum c) \<and> c > 1 \<longrightarrow> isAnimation mimeType exif media"
    by (simp add: isAnimation_tracks exif_frame_count_def)
  have "\<not> exif_frame_count Map.empty" "\<not> exif_animation_flag Map.empty"
    "\<not> exif_duration_positive Map.empty"
    by (simp_all add: exif_frame_count_def exif_animation_flag_def exif_duration_positive_def)
  then show "isAnimation mimeType Map.empty media \<longleftrightarrow>
      (\<exists>t\<in>set (track_list media). \<exists>m. t = JObj m \<and>
         (\<exists>f. m ''Format'' = Some (JStr f) \<and>
            ((mimeType = ''image/gif'' \<and> Contains f ''GIF'') \<or>
             (mimeType = ''image/webp'' \<and> Contains f ''WebP''))) \<and>
         ((\<exists>fc. m ''FrameCount'' = Some (JStr fc) \<and> fc \<noteq> ''1'') \<or>
          (\<exists>dur. m ''Duration'' = Some (JStr dur) \<and> dur \<noteq> ''0'')))"
    by (simp only: isAnimation_tracks animation_tracks_iff track_evidence_def simp_thms)
  show "isAnimation mimeType exif media \<longleftrightarrow>
      (\<exists>c. exif ''FrameCount'' = Some (JNum c) \<and> c > 1) \<or>
      (\<exists>a. exif ''Animation'' = Some (JStr a) \<and> (a = ''Yes'' \<or> a = ''True'')) \<or>
      (\<exists>d. exif ''Duration'' = Some (JNum d) \<and> d > 0) \<or>
      (\<exists>t\<in>set (track_list media). \<exists>m. t = JObj m \<and>
         (\<exists>f. m ''Format'' = Some (JStr f) \<and>
            ((mimeType = ''image/gif'' \<and> Contains f ''GIF'') \<or>
             (mimeType = ''image/webp'' \<and> Contains f ''WebP''))) \<and>
         ((\<exists>fc. m ''FrameCount'' = Some (JStr fc) \<and> fc \<noteq> ''1'') \<or>
          (\<exists>dur. m ''Duration'' = Some (JStr dur) \<and> dur \<noteq> ''0'')))"
    unfolding isAnimation_tracks animation_tracks_iff track_evidence_def
      exif_frame_count_iff exif_animation_flag_iff exif_duration_positive_iff ..
qed

text \<open>
  The theorem on the specification's examples: \<^verbatim>\<open>{"FrameCount": 5}\<close> for a PDF;
  a GIF track with twelve frames; a GIF track with FrameCount \<^verbatim>\<open>1\<close> and Duration
  \<^verbatim>\<open>0\<close>; and the twelve-frame GIF track under the MIME type \<^verbatim>\<open>image/webp\<close>.
  Then, with a tag document that is not empty, the twelve-frame GIF track under
  \<^verbatim>\<open>image/png\<close>, and a WebP track with a duration under \<^verbatim>\<open>image/webp\<close>.
\<close>

theorem isAnimation_frame_count_and_tracks_witness:
  "isAnimation ''application/pdf'' [''FrameCount'' \<mapsto> JNum 5] Map.empty \<and>
   isAnimation ''image/gif'' Map.empty
     (with_tracks Map.empty Map.empty
        [JObj [''Format'' \<mapsto> JStr ''GIF'', ''FrameCount'' \<mapsto> JStr ''12'']]) \<and>
   \<not> isAnimation ''image/gif'' Map.empty
     (with_tracks Map.empty Map.empty
        [JObj [''Format'' \<mapsto> JStr ''GIF'', ''FrameCount'' \<mapsto> JStr ''1'', ''Duration'' \<mapsto> JStr ''0'']]) \<and>
   \<not> isAnimation ''image/webp'' Map.empty
     (with_tracks Map.empty Map.empty
        [JObj [''Format'' \<mapsto> JStr ''GIF'', ''FrameCount'' \<mapsto> JStr ''12'']]) \<and>
   \<not> isAnimation ''image/png'' [''FileType'' \<mapsto> JStr ''PNG'']
     (with_tracks Map.empty Map.empty
        [JObj [''Format'' \<mapsto> JStr ''GIF'', ''FrameCount'' \<mapsto> JStr ''12'']]) \<and>
   isAnimation ''image/webp'' [''FileType'' \<mapsto> JStr ''WEBP'', ''FrameCount'' \<mapsto> JNum 1]
     (with_tracks Map.empty Map.empty
        [JObj [''Format'' \<mapsto> JStr ''WebP'', ''Duration'' \<mapsto> JStr ''1200'']])"
proof -
  have g: "Contains ''GIF'' ''GIF''" "\<not> Contains ''GIF'' ''WebP''" "Contains ''WebP'' ''WebP''"
    by (simp_all add: HasPrefix_def)
  have a: "isAnimation ''application/pdf'' [''FrameCount'' \<mapsto> JNum 5] Map.empty"
    using isAnimation_frame_count_and_tracks
      [of "[''FrameCount'' \<mapsto> JNum 5]" "''application/pdf''" Map.empty, THEN conjunct1]
    by simp
  have b: "isAnimation ''image/gif'' Map.empty
     (with_tracks Map.empty Map.empty
        [JObj [''Format'' \<mapsto> JStr ''GIF'', ''FrameCount'' \<mapsto> JStr ''12'']])"
    using isAnimation_frame_count_and_tracks
      [of Map.empty "''image/gif''" "with_tracks Map.empty Map.empty
        [JObj [''Format'' \<mapsto> JStr ''GIF'', ''FrameCount'' \<mapsto> JStr ''12'']]",
        THEN conjunct2, THEN conjunct1] g
    by simp
  have c: "\<not> isAnimation ''image/gif'' Map.empty
     (with_tracks Map.empty Map.empty
        [JObj [''Format'' \<mapsto> JStr ''GIF'', ''FrameCount'' \<mapsto> JStr ''1'', ''Duration'' \<mapsto> JStr ''0'']])"
    using isAnimation_frame_count_and_tracks
      [of Map.empty "''image/gif''" "with_tracks Map.empty Map.empty
        [JObj [''Format'' \<mapsto> JStr ''GIF'', ''FrameCount'' \<mapsto> JStr ''1'', ''Duration'' \<mapsto> JStr ''0'']]",
        THEN conjunct2, THEN conjunct1] g
    by simp
  have d: "\<not> isAnimation ''image/webp'' Map.empty
     (with_tracks Map.empty Map.empty
        [JObj [''Format'' \<mapsto> JStr ''GIF'', ''FrameCount'' \<mapsto> JStr ''12'']])"
    using isAnimation_frame_count_and_tracks
      [of Map.empty "''image/webp''" "with_tracks Map.empty Map.empty
        [JObj [''Format'' \<mapsto> JStr ''GIF'', ''FrameCount'' \<mapsto> JStr ''12'']]",
        THEN conjunct2, THEN conjunct1] g
    by simp
  have e: "\<not> isAnimation ''image/png'' [''FileType'' \<mapsto> JStr ''PNG'']
     (with_tracks Map.empty Map.empty
        [JObj [''Format'' \<mapsto> JStr ''GIF'', ''FrameCount'' \<mapsto> JStr ''12'']])"
    using isAnimation_frame_count_and_tracks
      [of "[''FileType'' \<mapsto> JStr ''PNG'']" "''image/png''" "with_tracks Map.empty Map.empty
        [JObj [''Format'' \<mapsto> JStr ''GIF'', ''FrameCount'' \<mapsto> JStr ''12'']]",
        THEN conjunct2, THEN conjunct2] g
    by simp
  have f: "isAnimation ''image/webp'' [''FileType'' \<mapsto> JStr ''WEBP'', ''FrameCount'' \<mapsto> JNum 1]
     (with_tracks Map.empty Map.empty
        [JObj [''Format'' \<mapsto> JStr ''WebP'', ''Duration'' \<mapsto> JStr ''1200'']])"
    using isAnimation_frame_count_and_tracks
      [of "[''FileType'' \<mapsto> JStr ''WEBP'', ''FrameCount'' \<mapsto> JNum 1]" "''image/webp''"
        "with_tracks Map.empty Map.empty
        [JObj [''Format'' \<mapsto> JStr ''WebP'', ''Duration'' \<mapsto> JStr ''1200'']]",
        THEN conjunct2, THEN conjunct2] g
    by simp
  from a b c d e f show ?thesis by simp
qed

section \<open>Duration resolution precedence\<close>

text \<open>
  Claim C6, as the code has it: the resolved duration is the string form of the tag
  document's Duration field whenever that key is present, whatever its value;
  otherwise it is the string form of the Duration field of the first track of the
  track list that is an object whose \<^verbatim>\<open>@type\<close> is \<^verbatim>\<open>Video\<close> and that has a
  Duration key; and when there is no such track it is the sentinel \<^verbatim>\<open>Unknown\<close>.
  A Video track without a Duration key does not end the search.
\<close>

theorem extractDuration_precedence:
  "extractDuration sprintf_v exif media =
     (case exif ''Duration'' of
        Some v \<Rightarrow> sprintf_v v
      | None \<Rightarrow> duration_of sprintf_v (find video_with_duration (track_list media)))"
proof (cases "find video_with_duration (track_list media)")
  case None
  then show ?thesis
    by (simp add: extractDuration_tracks duration_tracks_find duration_of_None
        split: option.splits)
next
  case (Some t)
  then show ?thesis
    by (simp add: extractDuration_tracks duration_tracks_find split: option.splits)
qed

text \<open>
  The theorem on three pairs of documents: the tag document's number wins over a
  track; among the tracks the first Video track that has a duration is taken; an
  Audio track's duration does not count.
\<close>

theorem extractDuration_precedence_witness:
  "(\<forall>sprintf_v.
      extractDuration sprintf_v [''Duration'' \<mapsto> JNum 12.5]
        (with_tracks Map.empty Map.empty
           [JObj [''@type'' \<mapsto> JStr ''Video'', ''Duration'' \<mapsto> JStr ''7'']])
      = sprintf_v (JNum 12.5)) \<and>
   (\<forall>sprintf_v.
      extractDuration sprintf_v Map.empty
        (with_tracks Map.empty Map.empty
           [JObj [''@type'' \<mapsto> JStr ''General'', ''Duration'' \<mapsto> JStr ''9''],
            JObj [''@type'' \<mapsto> JStr ''Video''],
            JObj [''@type'' \<mapsto> JStr ''Video'', ''Duration'' \<mapsto> JStr ''7''],
            JObj [''@type'' \<mapsto> JStr ''Video'', ''Duration'' \<mapsto> JStr ''8'']])
      = sprintf_v (JStr ''7'')) \<and>
   (\<forall>sprintf_v.
      extractDuration sprintf_v Map.empty
        (with_tracks Map.empty Map.empty
           [JObj [''@type'' \<mapsto> JStr ''Audio'', ''Duration'' \<mapsto> JStr ''9'']])
      = ''Unknown'')"
proof (intro conjI allI)
  fix sprintf_v :: "json \<Rightarrow> string"
  show "extractDuration sprintf_v [''Duration'' \<mapsto> JNum 12.5]
        (with_tracks Map.empty Map.empty
           [JObj [''@type'' \<mapsto> JStr ''Video'', ''Duration'' \<mapsto> JStr ''7'']])
      = sprintf_v (JNum 12.5)"
    by (simp add: extractDuration_precedence)
  show "extractDuration sprintf_v Map.empty
        (with_tracks Map.empty Map.empty
           [JObj [''@type'' \<mapsto> JStr ''General'', ''Duration'' \<mapsto> JStr ''9''],
            JObj [''@type'' \<mapsto> JStr ''Video''],
            JObj [''@type'' \<mapsto> JStr ''Video'', ''Duration'' \<mapsto> JStr ''7''],
            JObj [''@type'' \<mapsto> JStr ''Video'', ''Duration'' \<mapsto> JStr ''8'']])
      = sprintf_v (JStr ''7'')"
    by (simp add: extractDuration_precedence video_with_duration_def is_video_track_def
        has_duration_def duration_of_def)
  show "extractDuration sprintf_v Map.empty
        (with_tracks Map.empty Map.empty
           [JObj [''@type'' \<mapsto> JStr ''Audio'', ''Duration'' \<mapsto> JStr ''9'']])
      = ''Unknown''"
    by (simp add: extractDuration_precedence video_with_duration_def is_video_track_def
        has_duration_def duration_of_def)
qed

text \<open>
  Claim C6 as the specification states it, with the first Video track deciding alone
  (\<open>spec_duration\<close>), fails on an empty tag document and the track list
  \<^verbatim>\<open>[{"@type": "Video"}, {"@type": "Video", "Duration": "5"}]\<close>: the code returns the
  string form of \<^verbatim>\<open>"5"\<close> (lemma \<open>two_video_tracks_code\<close>), the specification's
  reading the sentinel (lemma \<open>two_video_tracks_spec\<close>), and
  \<^verbatim>\<open>fmt.Sprintf("%v", "5")\<close> is \<^verbatim>\<open>5\<close>.
\<close>

theorem extractDuration_first_video_counterexample:
  "(\<forall>sprintf_v.
      extractDuration sprintf_v Map.empty
        (with_tracks Map.empty Map.empty
           [JObj [''@type'' \<mapsto> JStr ''Video''],
            JObj [''@type'' \<mapsto> JStr ''Video'', ''Duration'' \<mapsto> JStr ''5'']])
      = sprintf_v (JStr ''5'')) \<and>
   (\<forall>sprintf_v.
      spec_duration sprintf_v Map.empty
        (with_tracks Map.empty Map.empty
           [JObj [''@type'' \<mapsto> JStr ''Video''],
            JObj [''@type'' \<mapsto> JStr ''Video'', ''Duration'' \<mapsto> JStr ''5'']])
      = ''Unknown'') \<and>
   \<not> (\<forall>sprintf_v exif media.
         extractDuration sprintf_v exif media = spec_duration sprintf_v exif media)"
proof (intro conjI allI)
  fix sprintf_v :: "json \<Rightarrow> string"
  show "extractDuration sprintf_v Map.empty
        (with_tracks Map.empty Map.empty
           [JObj [''@type'' \<mapsto> JStr ''Video''],
            JObj [''@type'' \<mapsto> JStr ''Video'', ''Duration'' \<mapsto> JStr ''5'']])
      = sprintf_v (JStr ''5'')"
    by (rule two_video_tracks_code)
  show "spec_duration sprintf_v Map.empty
        (with_tracks Map.empty Map.empty
           [JObj [''@type'' \<mapsto> JStr ''Video''],
            JObj [''@type'' \<mapsto> JStr ''Video'', ''Duration'' \<mapsto> JStr ''5'']])
      = ''Unknown''"
    by (rule two_video_tracks_spec)
next
  show "\<not> (\<forall>sprintf_v exif media.
         extractDuration sprintf_v exif media = spec_duration sprintf_v exif media)"
  proof
    assume h: "\<forall>sprintf_v exif media.
         extractDuration sprintf_v exif media = spec_duration sprintf_v exif media"
    have "extractDuration (\<lambda>v. ''5'') Map.empty
        (with_tracks Map.empty Map.empty
           [JObj [''@type'' \<mapsto> JStr ''Video''],
            JObj [''@type'' \<mapsto> JStr ''Video'', ''Duration'' \<mapsto> JStr ''5'']])
      = spec_duration (\<lambda>v. ''5'') Map.empty
        (with_tracks Map.empty Map.empty
           [JObj [''@type'' \<mapsto> JStr ''Video''],
            JObj [''@type'' \<mapsto> JStr ''Video'', ''Duration'' \<mapsto> JStr ''5'']])"
      using h by blast
    then have "''5'' = ''Unknown''"
      unfolding two_video_tracks_code two_video_tracks_spec .
    then show False by simp
  qed
qed

section \<open>Human-readable size: the unit index\<close>

text \<open>
  Claim C10: for every byte count from 0 up to, but not including, \<open>1000 ^ 5\<close> the
  unit index that the loop of \<^verbatim>\<open>humanReadableSize\<close> computes is at most 3, the
  lookup in the list of the four units is in bounds and the function returns a
  string; for every byte count of at least \<open>1000 ^ 5\<close> the index is 4 or more and
  the lookup is out of bounds, a run-time panic.
\<close>

theorem humanReadableSize_index_bounds:
  "(0 \<le> bytes \<and> bytes < 1000 ^ 5 \<longrightarrow>
      snd (size_loop (bytes div 1000) 1000 0) \<le> 3 \<and>
      (\<exists>s. humanReadableSize sprintf_f1 bytes = Inr s)) \<and>
   (1000 ^ 5 \<le> bytes \<longrightarrow>
      4 \<le> snd (size_loop (bytes div 1000) 1000 0) \<and>
      (\<exists>i. 4 \<le> i \<and> humanReadableSize sprintf_f1 bytes = Inl (IndexOutOfRange i (length units))))"
proof (intro conjI impI)
  assume a: "0 \<le> bytes \<and> bytes < 1000 ^ 5"
  then have "bytes < 1000 * 1000 ^ (3 + 1)" by simp
  then have "bytes div 1000 < 1000 ^ (3 + 1)" by (rule div_unit_less)
  then have "snd (size_loop (bytes div 1000) 1000 0) \<le> 0 + 3"
    by (rule size_loop_exp_upper)
  then show le: "snd (size_loop (bytes div 1000) 1000 0) \<le> 3" by simp
  show "\<exists>s. humanReadableSize sprintf_f1 bytes = Inr s"
  proof (cases "bytes < 1000")
    case True
    then show ?thesis by (simp add: humanReadableSize_def)
  next
    case False
    with le show ?thesis by (simp add: humanReadableSize_result Let_def)
  qed
next
  assume a: "1000 ^ 5 \<le> bytes"
  then have "1000 * 1000 ^ 4 \<le> bytes" by simp
  then have "1000 ^ 4 \<le> bytes div 1000" by (rule div_unit_ge)
  then have "0 + 4 \<le> snd (size_loop (bytes div 1000) 1000 0)"
    by (rule size_loop_exp_lower)
  then show ge: "4 \<le> snd (size_loop (bytes div 1000) 1000 0)" by simp
  from a have "1000 \<le> bytes" by simp
  with ge show "\<exists>i. 4 \<le> i \<and>
      humanReadableSize sprintf_f1 bytes = Inl (IndexOutOfRange i (length units))"
    by (simp add: humanReadableSize_result Let_def units_def)
qed

text \<open>
  The theorem at the last byte count below \<open>1000 ^ 5\<close> and at the largest
  \<^verbatim>\<open>int64\<close>.
\<close>

theorem humanReadableSize_index_bounds_witness:
  "(\<forall>sprintf_f1.
      snd (size_loop (999999999999999 div 1000) 1000 0) \<le> 3 \<and>
      (\<exists>s. humanReadableSize sprintf_f1 999999999999999 = Inr s)) \<and>
   (\<forall>sprintf_f1.
      4 \<le> snd (size_loop (9223372036854775807 div 1000) 1000 0) \<and>
      (\<exists>i. 4 \<le> i \<and>
         humanReadableSize sprintf_f1 9223372036854775807 = Inl (IndexOutOfRange i (length units))))"
proof (intro conjI allI)
  fix sprintf_f1 :: "int \<Rightarrow> int \<Rightarrow> string"
  show "snd (size_loop (999999999999999 div 1000) 1000 0) \<le> 3"
    using humanReadableSize_index_bounds [of 999999999999999 sprintf_f1] by simp
  show "\<exists>s. humanReadableSize sprintf_f1 999999999999999 = Inr s"
    using humanReadableSize_index_bounds [of 999999999999999 sprintf_f1] by simp
  show "4 \<le> snd (size_loop (9223372036854775807 div 1000) 1000 0)"
    using humanReadableSize_index_bounds [of 9223372036854775807 sprintf_f1] by simp
  show "\<exists>i. 4 \<le> i \<and>
         humanReadableSize sprintf_f1 9223372036854775807 = Inl (IndexOutOfRange i (length units))"
    using humanReadableSize_index_bounds [of 9223372036854775807 sprintf_f1] by simp
qed

section \<open>Human-readable size: the format\<close>

text \<open>
  Claim C8 says that every byte count of 1000 or more is rendered as the count
  divided by its unit's power of 1000, with one decimal, and the unit's name. Below
  \<open>1000 ^ 5\<close> the code does so (lemmas \<open>humanReadableSize_below_unit\<close> and
  \<open>humanReadableSize_unit\<close>). At \<open>1000 ^ 5\<close> bytes, one petabyte, the loop leaves
  the index 4, the list of units has the four entries KB, MB, GB and TB only, and the
  code panics instead of returning a string.
\<close>

theorem humanReadableSize_petabyte:
  "humanReadableSize sprintf_f1 1000000000000000 = Inl (IndexOutOfRange 4 4)"
  by (simp add: humanReadableSize_def units_def size_loop.simps)

section \<open>Digest completeness and atomicity\<close>

text \<open>
  Claim C7: for every file, \<^verbatim>\<open>computeHashes\<close> either returns, with a \<^verbatim>\<open>nil\<close>
  error, a map whose keys are exactly the eight algorithm names and whose values are
  strings of lowercase hexadecimal digits, or it returns no map and an error. In
  full: when the first or the second BLAKE2b accumulator cannot be built, when the
  file cannot be opened, or when a read fails after any number of good reads, the
  result is no map and that very error; and when nothing fails, the result is the
  map that gives, under each of the eight names, the hexadecimal form (lowercase, two
  digits for each byte) of that algorithm's digest of the whole contents of the file.
  A map with only some of the digests is never returned.
\<close>

theorem computeHashes_all_or_nothing:
  "((\<exists>m. computeHashes lib Open filePath = (Some m, None) \<and> dom m = algorithms \<and>
        (\<forall>name\<in>algorithms. \<exists>h. m name = Some h \<and> lower_hex h)) \<or>
    ((\<exists>err. computeHashes lib Open filePath = (None, Some err)) \<and>
     ((\<exists>err. blake2b_New256 lib = Inl err) \<or> (\<exists>err. blake2b_New512 lib = Inl err) \<or>
      (\<exists>err. Open filePath = Inl err) \<or>
      (\<exists>file err. Open filePath = Inr file \<and> ReadError err \<in> set file)))) \<and>
   (\<forall>err. blake2b_New256 lib = Inl err \<longrightarrow>
      computeHashes lib Open filePath = (None, Some err)) \<and>
   (\<forall>b err. blake2b_New256 lib = Inr b \<and> blake2b_New512 lib = Inl err \<longrightarrow>
      computeHashes lib Open filePath = (None, Some err)) \<and>
   (\<forall>b b' err. blake2b_New256 lib = Inr b \<and> blake2b_New512 lib = Inr b' \<and>
      Open filePath = Inl err \<longrightarrow>
      computeHashes lib Open filePath = (None, Some err)) \<and>
   (\<forall>b b' pre err post. blake2b_New256 lib = Inr b \<and> blake2b_New512 lib = Inr b' \<and>
      Open filePath = Inr (pre @ ReadError err # post) \<and> (\<forall>e. ReadError e \<notin> set pre) \<longrightarrow>
      computeHashes lib Open filePath = (None, Some err)) \<and>
   (\<forall>b b' rs. blake2b_New256 lib = Inr b \<and> blake2b_New512 lib = Inr b' \<and>
      Open filePath = Inr rs \<and> (\<forall>e. ReadError e \<notin> set rs) \<longrightarrow>
      (\<exists>m. computeHashes lib Open filePath = (Some m, None) \<and> dom m = algorithms \<and>
         (\<forall>name\<in>algorithms. \<exists>f. digest_table lib b b' name = Some f \<and>
            m name = Some (EncodeToString (f (contents rs))) \<and>
            lower_hex (EncodeToString (f (contents rs))) \<and>
            length (EncodeToString (f (contents rs))) = 2 * length (f (contents rs))))) \<and>
   card algorithms = 8"
proof (intro conjI allI impI)
  show "(\<exists>m. computeHashes lib Open filePath = (Some m, None) \<and> dom m = algorithms \<and>
        (\<forall>name\<in>algorithms. \<exists>h. m name = Some h \<and> lower_hex h)) \<or>
    ((\<exists>err. computeHashes lib Open filePath = (None, Some err)) \<and>
     ((\<exists>err. blake2b_New256 lib = Inl err) \<or> (\<exists>err. blake2b_New512 lib = Inl err) \<or>
      (\<exists>err. Open filePath = Inl err) \<or>
      (\<exists>file err. Open filePath = Inr file \<and> ReadError err \<in> set file)))"
    by (rule computeHashes_either)
next
  fix err assume "blake2b_New256 lib = Inl err"
  then show "computeHashes lib Open filePath = (None, Some err)"
    by (rule computeHashes_blake256_error)
next
  fix b err assume "blake2b_New256 lib = Inr b \<and> blake2b_New512 lib = Inl err"
  then show "computeHashes lib Open filePath = (None, Some err)"
    using computeHashes_blake512_error [of lib b err] by simp
next
  fix b b' err
  assume "blake2b_New256 lib = Inr b \<and> blake2b_New512 lib = Inr b' \<and> Open filePath = Inl err"
  then show "computeHashes lib Open filePath = (None, Some err)"
    using computeHashes_open_error [of lib b b' Open filePath err] by simp
next
  fix b b' pre err post
  assume "blake2b_New256 lib = Inr b \<and> blake2b_New512 lib = Inr b' \<and>
      Open filePath = Inr (pre @ ReadError err # post) \<and> (\<forall>e. ReadError e \<notin> set pre)"
  then show "computeHashes lib Open filePath = (None, Some err)"
    using computeHashes_read_error [of lib b b' Open filePath pre err post] by simp
next
  fix b b' rs
  assume "blake2b_New256 lib = Inr b \<and> blake2b_New512 lib = Inr b' \<and>
      Open filePath = Inr rs \<and> (\<forall>e. ReadError e \<notin> set rs)"
  then show "\<exists>m. computeHashes lib Open filePath = (Some m, None) \<and> dom m = algorithms \<and>
         (\<forall>name\<in>algorithms. \<exists>f. digest_table lib b b' name = Some f \<and>
            m name = Some (EncodeToString (f (contents rs))) \<and>
            lower_hex (EncodeToString (f (contents rs))) \<and>
            length (EncodeToString (f (contents rs))) = 2 * length (f (contents rs)))"
    using computeHashes_values [of lib b b' Open filePath rs] by simp
next
  show "card algorithms = 8" by (rule card_algorithms)
qed

text \<open>
  The theorem on a file read in two chunks, on a file that cannot be opened, on a
  file whose second read fails, and on a library whose second BLAKE2b constructor
  fails, with digest functions that return their input.
\<close>

theorem computeHashes_all_or_nothing_witness:
  "(\<exists>m. computeHashes sample_crypto (\<lambda>p. Inr [Chunk [1, 2], Chunk [255]]) ''a.bin'' = (Some m, None) \<and>
        dom m = algorithms \<and> m ''md5'' = Some ''0102ff'' \<and> m ''blake2b-512'' = Some ''ff0201'') \<and>
   computeHashes sample_crypto (\<lambda>p. Inl ''no such file'') ''a.bin'' = (None, Some ''no such file'') \<and>
   computeHashes sample_crypto (\<lambda>p. Inr [Chunk [1, 2], ReadError ''input/output error'', Chunk [3]]) ''a.bin''
     = (None, Some ''input/output error'') \<and>
   computeHashes (sample_crypto\<lparr>blake2b_New512 := Inl ''invalid key size''\<rparr>)
       (\<lambda>p. Inr [Chunk [1, 2]]) ''a.bin''
     = (None, Some ''invalid key size'')"
proof (intro conjI)
  have k: "blake2b_New256 sample_crypto = Inr (\<lambda>bs. bs)" "blake2b_New512 sample_crypto = Inr rev"
    by (simp_all add: sample_crypto_def)
  have md5: "''md5'' \<in> algorithms" and b512: "''blake2b-512'' \<in> algorithms"
    by (simp_all add: algorithms_def)
  have t1: "digest_table sample_crypto (\<lambda>bs. bs) rev ''md5'' = Some (\<lambda>bs. bs)"
    by (simp add: digest_table_def sample_crypto_def)
  have t2: "digest_table sample_crypto (\<lambda>bs. bs) rev ''blake2b-512'' = Some rev"
    by (simp add: digest_table_def)
  have h1: "EncodeToString (contents [Chunk [1, 2], Chunk [255]]) = ''0102ff''"
    by (simp add: hextable_def)
  have h2: "EncodeToString (rev (contents [Chunk [1, 2], Chunk [255]])) = ''ff0201''"
    by (simp add: hextable_def)
  have ok: "\<forall>e. ReadError e \<notin> set [Chunk [1, 2], Chunk [255]]" by simp
  note E = computeHashes_all_or_nothing
    [of sample_crypto "\<lambda>p. Inr [Chunk [1, 2], Chunk [255]]" "''a.bin''",
      THEN conjunct2, THEN conjunct2, THEN conjunct2, THEN conjunct2, THEN conjunct2,
      THEN conjunct1,
      rule_format, of "\<lambda>bs. bs" rev "[Chunk [1, 2], Chunk [255]]"]
  have "\<exists>m. computeHashes sample_crypto (\<lambda>p. Inr [Chunk [1, 2], Chunk [255]]) ''a.bin'' = (Some m, None) \<and>
         dom m = algorithms \<and>
         (\<forall>name\<in>algorithms. \<exists>f. digest_table sample_crypto (\<lambda>bs. bs) rev name = Some f \<and>
            m name = Some (EncodeToString (f (contents [Chunk [1, 2], Chunk [255]]))) \<and>
            lower_hex (EncodeToString (f (contents [Chunk [1, 2], Chunk [255]]))) \<and>
            length (EncodeToString (f (contents [Chunk [1, 2], Chunk [255]]))) =
              2 * length (f (contents [Chunk [1, 2], Chunk [255]])))"
    by (rule E) (simp add: k)
  then obtain m where m: "computeHashes sample_crypto (\<lambda>p. Inr [Chunk [1, 2], Chunk [255]]) ''a.bin'' = (Some m, None)"
    "dom m = algorithms"
    "\<forall>name\<in>algorithms. \<exists>f. digest_table sample_crypto (\<lambda>bs. bs) rev name = Some f \<and>
            m name = Some (EncodeToString (f (contents [Chunk [1, 2], Chunk [255]]))) \<and>
            lower_hex (EncodeToString (f (contents [Chunk [1, 2], Chunk [255]]))) \<and>
            length (EncodeToString (f (contents [Chunk [1, 2], Chunk [255]]))) =
              2 * length (f (contents [Chunk [1, 2], Chunk [255]]))"
    by (elim exE conjE)
  from m(3) md5 t1 have "m ''md5'' = Some (EncodeToString (contents [Chunk [1, 2], Chunk [255]]))"
    by fastforce
  then have v1: "m ''md5'' = Some ''0102ff''" by (simp only: h1)
  from m(3) b512 t2 have "m ''blake2b-512'' = Some (EncodeToString (rev (contents [Chunk [1, 2], Chunk [255]])))"
    by fastforce
  then have v2: "m ''blake2b-512'' = Some ''ff0201''" by (simp only: h2)
  from m(1,2) v1 v2
  show "\<exists>m. computeHashes sample_crypto (\<lambda>p. Inr [Chunk [1, 2], Chunk [255]]) ''a.bin'' = (Some m, None) \<and>
        dom m = algorithms \<and> m ''md5'' = Some ''0102ff'' \<and> m ''blake2b-512'' = Some ''ff0201''"
    by blast
next
  have k: "blake2b_New256 sample_crypto = Inr (\<lambda>bs. bs)" "blake2b_New512 sample_crypto = Inr rev"
    by (simp_all add: sample_crypto_def)
  show "computeHashes sample_crypto (\<lambda>p. Inl ''no such file'') ''a.bin'' = (None, Some ''no such file'')"
    using computeHashes_all_or_nothing [of sample_crypto "\<lambda>p. Inl ''no such file''" "''a.bin''"] k
    by simp
next
  have k: "blake2b_New256 sample_crypto = Inr (\<lambda>bs. bs)" "blake2b_New512 sample_crypto = Inr rev"
    by (simp_all add: sample_crypto_def)
  note D = computeHashes_all_or_nothing
    [of sample_crypto "\<lambda>p. Inr [Chunk [1, 2], ReadError ''input/output error'', Chunk [3]]" "''a.bin''",
      THEN conjunct2, THEN conjunct2, THEN conjunct2, THEN conjunct2, THEN conjunct1,
      rule_format, of "\<lambda>bs. bs" rev "[Chunk [1, 2]]" "''input/output error''" "[Chunk [3]]"]
  show "computeHashes sample_crypto (\<lambda>p. Inr [Chunk [1, 2], ReadError ''input/output error'', Chunk [3]]) ''a.bin''
     = (None, Some ''input/output error'')"
    by (rule D) (simp add: k)
next
  show "computeHashes (sample_crypto\<lparr>blake2b_New512 := Inl ''invalid key size''\<rparr>)
       (\<lambda>p. Inr [Chunk [1, 2]]) ''a.bin''
     = (None, Some ''invalid key size'')"
    using computeHashes_all_or_nothing [of "sample_crypto\<lparr>blake2b_New512 := Inl ''invalid key size''\<rparr>"
        "\<lambda>p. Inr [Chunk [1, 2]]" "''a.bin''"]
    by (simp add: sample_crypto_def)
qed

section \<open>Mistyped and missing fields\<close>

text \<open>
  Claim C9, as the code has it. The classification returns a value on all documents
  and never panics: the one operation in it that can panic, the comparison of
  interface values in \<^verbatim>\<open>extractDuration\<close>, has a string or \<^verbatim>\<open>nil\<close> on one
  side; the other four functions read maps, use the two-value form of every type
  assertion and call \<^verbatim>\<open>strings\<close> and \<^verbatim>\<open>strconv.Atoi\<close> only. A value of the
  wrong JSON type, \<^verbatim>\<open>null\<close> included, behaves exactly as an absent field in these
  places: the tag fields FrameCount and Duration in \<^verbatim>\<open>isAnimation\<close> when they are
  not numbers; the tag fields Animation and MIMEType when they are not strings; a
  media root that is not an object; a track field that is not a list; a track that
  is not an object, which is skipped; every field of a track but Duration when it is
  not a string, for all four functions that read the track document; and the
  Duration of a track when it is not a string, for \<^verbatim>\<open>isAnimation\<close>,
  \<^verbatim>\<open>isEncrypted\<close> and \<^verbatim>\<open>isVideoWithAudioOnly\<close>. A tag field that a function does
  not read behaves as absent whatever its value. Two tests are on the presence of a
  key alone, and there a value of any type, \<^verbatim>\<open>null\<close> included, counts as
  present: \<^verbatim>\<open>extractDuration\<close> returns the string form of the tag document's
  Duration, and of the Duration of the first Video track that has the key, whatever
  the value is; and \<^verbatim>\<open>isVideoWithAudioOnly\<close> returns false as soon as the tag
  document has the key VideoFrameRate or FrameRate.
\<close>

theorem mistyped_fields_as_absent:
  "((\<forall>c. v \<noteq> JNum c) \<longrightarrow>
      isAnimation mimeType (exif(''FrameCount'' \<mapsto> v)) media =
        isAnimation mimeType (exif(''FrameCount'' := None)) media \<and>
      isAnimation mimeType (exif(''Duration'' \<mapsto> v)) media =
        isAnimation mimeType (exif(''Duration'' := None)) media) \<and>
   ((\<forall>s. v \<noteq> JStr s) \<longrightarrow>
      isAnimation mimeType (exif(''Animation'' \<mapsto> v)) media =
        isAnimation mimeType (exif(''Animation'' := None)) media \<and>
      getMimeType TypeByFile filePath (exif(''MIMEType'' \<mapsto> v)) =
        getMimeType TypeByFile filePath (exif(''MIMEType'' := None))) \<and>
   ((\<forall>r. v \<noteq> JObj r) \<longrightarrow>
      same_classification (media(''media'' \<mapsto> v)) (media(''media'' := None))) \<and>
   ((\<forall>ts. v \<noteq> JArr ts) \<longrightarrow>
      same_classification (media(''media'' \<mapsto> JObj (mediaRoot(''track'' \<mapsto> v))))
        (media(''media'' \<mapsto> JObj (mediaRoot(''track'' := None))))) \<and>
   ((\<forall>m. v \<noteq> JObj m) \<longrightarrow>
      same_classification (with_tracks media mediaRoot (xs @ v # ys))
        (with_tracks media mediaRoot (xs @ ys))) \<and>
   ((\<forall>s. v \<noteq> JStr s) \<and> k \<noteq> ''Duration'' \<longrightarrow>
      same_classification (with_tracks media mediaRoot (xs @ JObj (track(k \<mapsto> v)) # ys))
        (with_tracks media mediaRoot (xs @ JObj (track(k := None)) # ys))) \<and>
   ((\<forall>s. v \<noteq> JStr s) \<longrightarrow>
      isAnimation mimeType exif
          (with_tracks media mediaRoot (xs @ JObj (track(''Duration'' \<mapsto> v)) # ys)) =
        isAnimation mimeType exif
          (with_tracks media mediaRoot (xs @ JObj (track(''Duration'' := None)) # ys)) \<and>
      isEncrypted (with_tracks media mediaRoot (xs @ JObj (track(''Duration'' \<mapsto> v)) # ys)) =
        isEncrypted (with_tracks media mediaRoot (xs @ JObj (track(''Duration'' := None)) # ys)) \<and>
      isVideoWithAudioOnly mimeType exif
          (with_tracks media mediaRoot (xs @ JObj (track(''Duration'' \<mapsto> v)) # ys)) =
        isVideoWithAudioOnly mimeType exif
          (with_tracks media mediaRoot (xs @ JObj (track(''Duration'' := None)) # ys))) \<and>
   (classify sprintf_v TypeByFile filePath exif media =
      Inr \<lparr>Duration = extractDuration sprintf_v exif media,
           MediaIsEncrypted = isEncrypted media,
           MimeType = getMimeType TypeByFile filePath exif,
           MediaIsAnimation = isAnimation (getMimeType TypeByFile filePath exif) exif media,
           MediaVideoWithAudioOnly =
             isVideoWithAudioOnly (getMimeType TypeByFile filePath exif) exif media\<rparr>) \<and>
   extractDuration_checked sprintf_v exif media = Inr (extractDuration sprintf_v exif media) \<and>
   (k \<noteq> ''FrameCount'' \<and> k \<noteq> ''Animation'' \<and> k \<noteq> ''Duration'' \<longrightarrow>
      isAnimation mimeType (exif(k \<mapsto> v)) media = isAnimation mimeType (exif(k := None)) media) \<and>
   (k \<noteq> ''MIMEType'' \<longrightarrow>
      getMimeType TypeByFile filePath (exif(k \<mapsto> v)) =
        getMimeType TypeByFile filePath (exif(k := None))) \<and>
   (k \<noteq> ''Duration'' \<longrightarrow>
      extractDuration sprintf_v (exif(k \<mapsto> v)) media =
        extractDuration sprintf_v (exif(k := None)) media) \<and>
   (k \<noteq> ''VideoFrameRate'' \<and> k \<noteq> ''FrameRate'' \<longrightarrow>
      isVideoWithAudioOnly mimeType (exif(k \<mapsto> v)) media =
        isVideoWithAudioOnly mimeType (exif(k := None)) media) \<and>
   extractDuration sprintf_v (exif(''Duration'' \<mapsto> v)) media = sprintf_v v \<and>
   (exif ''Duration'' = None \<and> (\<forall>t\<in>set xs. \<not> video_with_duration t) \<and>
    track ''@type'' = Some (JStr ''Video'') \<longrightarrow>
      extractDuration sprintf_v exif
          (with_tracks media mediaRoot (xs @ JObj (track(''Duration'' \<mapsto> v)) # ys)) =
        sprintf_v v) \<and>
   (k = ''VideoFrameRate'' \<or> k = ''FrameRate'' \<longrightarrow>
      \<not> isVideoWithAudioOnly mimeType (exif(k \<mapsto> v)) media)"
  by (rule conjI [OF mistyped_core mistyped_extra, unfolded conj_assoc])

text \<open>
  The theorem on a tag FrameCount that is a string, a MIMEType that is
  \<^verbatim>\<open>null\<close>, a media root that is a list, and a track whose Encryption is a number;
  on a classification of documents whose first track has a list as its \<^verbatim>\<open>@type\<close>
  and whose second track is a number; on a tag Duration that is a list; and on a
  VideoFrameRate that is a boolean.
\<close>

theorem mistyped_fields_as_absent_witness:
  "isAnimation ''image/gif'' [''FrameCount'' \<mapsto> JStr ''5''] Map.empty =
     isAnimation ''image/gif'' ([''FrameCount'' \<mapsto> JStr ''5''](''FrameCount'' := None)) Map.empty \<and>
   getMimeType (\<lambda>p. Inr ''image/gif'') ''a.gif'' [''MIMEType'' \<mapsto> JNull] =
     getMimeType (\<lambda>p. Inr ''image/gif'') ''a.gif'' ([''MIMEType'' \<mapsto> JNull](''MIMEType'' := None)) \<and>
   same_classification [''media'' \<mapsto> JArr []] ([''media'' \<mapsto> JArr []](''media'' := None)) \<and>
   same_classification
     (with_tracks Map.empty Map.empty
        ([] @ JObj ([''@type'' \<mapsto> JStr ''General''](''Encryption'' \<mapsto> JNum 1)) # []))
     (with_tracks Map.empty Map.empty
        ([] @ JObj ([''@type'' \<mapsto> JStr ''General''](''Encryption'' := None)) # [])) \<and>
   (\<forall>sprintf_v. \<exists>r.
      classify sprintf_v (\<lambda>p. Inl ''magic failed'') ''a.bin'' [''FrameCount'' \<mapsto> JNull]
        (with_tracks Map.empty Map.empty [JObj [''@type'' \<mapsto> JArr []], JNum 3]) = Inr r) \<and>
   (\<forall>sprintf_v.
      extractDuration sprintf_v (Map.empty(''Duration'' \<mapsto> JArr [])) Map.empty = sprintf_v (JArr [])) \<and>
   \<not> isVideoWithAudioOnly ''video/mp4'' (Map.empty(''VideoFrameRate'' \<mapsto> JBool False)) Map.empty"
proof (intro conjI allI)
  show "isAnimation ''image/gif'' [''FrameCount'' \<mapsto> JStr ''5''] Map.empty =
     isAnimation ''image/gif'' ([''FrameCount'' \<mapsto> JStr ''5''](''FrameCount'' := None)) Map.empty"
    using mistyped_fields_as_absent [where v = "JStr ''5''" and exif = "[''FrameCount'' \<mapsto> JStr ''5'']"
        and mimeType = "''image/gif''" and media = Map.empty, THEN conjunct1]
    by simp
  show "getMimeType (\<lambda>p. Inr ''image/gif'') ''a.gif'' [''MIMEType'' \<mapsto> JNull] =
     getMimeType (\<lambda>p. Inr ''image/gif'') ''a.gif'' ([''MIMEType'' \<mapsto> JNull](''MIMEType'' := None))"
    using mistyped_fields_as_absent [where v = JNull and exif = "[''MIMEType'' \<mapsto> JNull]"
        and TypeByFile = "\<lambda>p. Inr ''image/gif''" and filePath = "''a.gif''", THEN conjunct2, THEN conjunct1]
    by simp
  show "same_classification [''media'' \<mapsto> JArr []] ([''media'' \<mapsto> JArr []](''media'' := None))"
    using mistyped_fields_as_absent [where v = "JArr []" and media = "[''media'' \<mapsto> JArr []]", THEN conjunct2, THEN conjunct2, THEN conjunct1]
    by simp
  show "same_classification
     (with_tracks Map.empty Map.empty
        ([] @ JObj ([''@type'' \<mapsto> JStr ''General''](''Encryption'' \<mapsto> JNum 1)) # []))
     (with_tracks Map.empty Map.empty
        ([] @ JObj ([''@type'' \<mapsto> JStr ''General''](''Encryption'' := None)) # []))"
    using mistyped_fields_as_absent [where v = "JNum 1" and k = "''Encryption''"
        and track = "[''@type'' \<mapsto> JStr ''General'']" and xs = "[]" and ys = "[]"
        and media = Map.empty and mediaRoot = Map.empty, THEN conjunct2, THEN conjunct2, THEN conjunct2, THEN conjunct2, THEN conjunct2, THEN conjunct1]
    by simp
next
  fix sprintf_v :: "json \<Rightarrow> string"
  show "\<exists>r. classify sprintf_v (\<lambda>p. Inl ''magic failed'') ''a.bin'' [''FrameCount'' \<mapsto> JNull]
        (with_tracks Map.empty Map.empty [JObj [''@type'' \<mapsto> JArr []], JNum 3]) = Inr r"
    using mistyped_fields_as_absent [where sprintf_v = sprintf_v and TypeByFile = "\<lambda>p. Inl ''magic failed''"
        and filePath = "''a.bin''" and exif = "[''FrameCount'' \<mapsto> JNull]"
        and media = "with_tracks Map.empty Map.empty [JObj [''@type'' \<mapsto> JArr []], JNum 3]", THEN conjunct2, THEN conjunct2, THEN conjunct2, THEN conjunct2, THEN conjunct2, THEN conjunct2, THEN conjunct2, THEN conjunct1]
    by (rule exI)
next
  fix sprintf_v :: "json \<Rightarrow> string"
  show "extractDuration sprintf_v (Map.empty(''Duration'' \<mapsto> JArr [])) Map.empty = sprintf_v (JArr [])"
    by (rule mistyped_fields_as_absent [where sprintf_v = sprintf_v and exif = Map.empty and v = "JArr []"
        and media = Map.empty, THEN conjunct2, THEN conjunct2, THEN conjunct2, THEN conjunct2, THEN conjunct2, THEN conjunct2, THEN conjunct2, THEN conjunct2, THEN conjunct2, THEN conjunct2, THEN conjunct2, THEN conjunct2, THEN conjunct2, THEN conjunct1])
next
  show "\<not> isVideoWithAudioOnly ''video/mp4'' (Map.empty(''VideoFrameRate'' \<mapsto> JBool False)) Map.empty"
    using mistyped_fields_as_absent [where k = "''VideoFrameRate''" and mimeType = "''video/mp4''"
        and exif = Map.empty and v = "JBool False" and media = Map.empty, THEN conjunct2, THEN conjunct2, THEN conjunct2, THEN conjunct2, THEN conjunct2, THEN conjunct2, THEN conjunct2, THEN conjunct2, THEN conjunct2, THEN conjunct2, THEN conjunct2, THEN conjunct2, THEN conjunct2, THEN conjunct2, THEN conjunct2]
    by simp
qed

text \<open>
  Claim C9 as the specification states it, with every \<^verbatim>\<open>null\<close> or mistyped field
  behaving as an absent one, fails in two places. On the tag document
  \<^verbatim>\<open>{"Duration": null}\<close> and an empty track document \<^verbatim>\<open>extractDuration\<close> returns
  the string form of \<^verbatim>\<open>nil\<close>, which is \<^verbatim>\<open><nil>\<close>, and on the empty tag document
  it returns \<^verbatim>\<open>Unknown\<close>. For \<^verbatim>\<open>video/mp4\<close>, on the tag document
  \<^verbatim>\<open>{"FrameRate": null}\<close> and an empty track document \<^verbatim>\<open>isVideoWithAudioOnly\<close>
  returns false, and on the empty tag document it returns true.
\<close>

theorem null_fields_counterexample:
  "(\<forall>sprintf_v. extractDuration sprintf_v [''Duration'' \<mapsto> JNull] Map.empty = sprintf_v JNull) \<and>
   (\<forall>sprintf_v. extractDuration sprintf_v Map.empty Map.empty = ''Unknown'') \<and>
   \<not> (\<forall>sprintf_v exif media.
         extractDuration sprintf_v (exif(''Duration'' \<mapsto> JNull)) media =
         extractDuration sprintf_v (exif(''Duration'' := None)) media) \<and>
   \<not> isVideoWithAudioOnly ''video/mp4'' [''FrameRate'' \<mapsto> JNull] Map.empty \<and>
   isVideoWithAudioOnly ''video/mp4'' Map.empty Map.empty \<and>
   \<not> (\<forall>mimeType exif media.
         isVideoWithAudioOnly mimeType (exif(''FrameRate'' \<mapsto> JNull)) media =
         isVideoWithAudioOnly mimeType (exif(''FrameRate'' := None)) media)"
proof (intro conjI allI)
  fix sprintf_v :: "json \<Rightarrow> string"
  show "extractDuration sprintf_v [''Duration'' \<mapsto> JNull] Map.empty = sprintf_v JNull"
    by (rule null_duration_code)
  show "extractDuration sprintf_v Map.empty Map.empty = ''Unknown''"
    by (rule no_duration_code)
next
  show "\<not> (\<forall>sprintf_v exif media.
         extractDuration sprintf_v (exif(''Duration'' \<mapsto> JNull)) media =
         extractDuration sprintf_v (exif(''Duration'' := None)) media)"
  proof
    assume h: "\<forall>sprintf_v exif media.
         extractDuration sprintf_v (exif(''Duration'' \<mapsto> JNull)) media =
         extractDuration sprintf_v (exif(''Duration'' := None)) media"
    have "extractDuration (\<lambda>v. ''<nil>'') (Map.empty(''Duration'' \<mapsto> JNull)) Map.empty =
          extractDuration (\<lambda>v. ''<nil>'') (Map.empty(''Duration'' := None)) Map.empty"
      using h by blast
    then have "''<nil>'' = ''Unknown''"
      by (simp add: null_duration_code no_duration_code)
    then show False by simp
  qed
next
  show "\<not> isVideoWithAudioOnly ''video/mp4'' [''FrameRate'' \<mapsto> JNull] Map.empty"
    by (rule null_frame_rate_code)
next
  show "isVideoWithAudioOnly ''video/mp4'' Map.empty Map.empty"
    by (rule no_frame_rate_code)
next
  show "\<not> (\<forall>mimeType exif media.
         isVideoWithAudioOnly mimeType (exif(''FrameRate'' \<mapsto> JNull)) media =
         isVideoWithAudioOnly mimeType (exif(''FrameRate'' := None)) media)"
  proof
    assume h: "\<forall>mimeType exif media.
         isVideoWithAudioOnly mimeType (exif(''FrameRate'' \<mapsto> JNull)) media =
         isVideoWithAudioOnly mimeType (exif(''FrameRate'' := None)) media"
    have "isVideoWithAudioOnly ''video/mp4'' (Map.empty(''FrameRate'' \<mapsto> JNull)) Map.empty =
          isVideoWithAudioOnly ''video/mp4'' (Map.empty(''FrameRate'' := None)) Map.empty"
      using h by blast
    then have "isVideoWithAudioOnly ''video/mp4'' [''FrameRate'' \<mapsto> JNull] Map.empty =
          isVideoWithAudioOnly ''video/mp4'' Map.empty Map.empty"
      by simp
    with null_frame_rate_code no_frame_rate_code show False by simp
  qed
qed

end
